theory Spec2Isabelle
  imports
    Complex_Main
    "HOL-Library.Char_ord"
    "HOL-Library.List_Lexorder"
    "HOL-Library.Log_Nat"
    "HOL-Library.Multiset"
    "HOL-Library.Sublist"
begin

chapter \<open>The dataset curation and retrain-trigger scripts\<close>

text \<open>
  A shallow embedding of the Python scripts under
  \<^verbatim>\<open>packages/solari-genai-kit/training/scripts\<close>:
  \<^verbatim>\<open>dedupe_jsonl.py\<close>, \<^verbatim>\<open>validate_jsonl.py\<close>,
  \<^verbatim>\<open>group_split_jsonl.py\<close>, \<^verbatim>\<open>split_jsonl.py\<close>,
  \<^verbatim>\<open>stats_report.py\<close> and \<^verbatim>\<open>retrain_trigger.py\<close>.

  Conventions of the model.
  \<^item> A Python \<^verbatim>\<open>str\<close> is a \<^typ>\<open>string\<close>; a character is a code point below 256.
    A code point that UTF-8 cannot encode (a lone surrogate, which \<^verbatim>\<open>json.loads\<close> accepts
    in a string) has no character of its own: that encoding a text raises is the result
    \<open>None\<close> of the parameter \<open>utf8_encode\<close>.
  \<^item> A value that \<^verbatim>\<open>json.loads\<close> returns is a \<open>json\<close>; Python's \<^verbatim>\<open>None\<close> is
    \<open>JNull\<close>, a \<^verbatim>\<open>dict\<close> is an association list in insertion order.
  \<^item> A \<^verbatim>\<open>float\<close> of a JSON value is a \<open>pyfloat\<close>: a finite value, \<^verbatim>\<open>-0.0\<close>, an infinity
    or NaN. The fractions on the command line of the splitters are finite: each is the
    rational number it denotes, and arithmetic rounds to the nearest binary64 value
    (\<open>rnd\<close>); infinities and NaN are not modelled there.
  \<^item> An exception that the script does not catch is an \<open>Inl\<close> result.
  \<^item> Functions of Python's library whose results are not computed here (the JSON parser,
    SHA-256, the pseudo-random shuffle, \<^verbatim>\<open>repr\<close> of floats and containers, the clock) are
    the fields of a record \<open>pylib\<close> that every script takes as a parameter.
\<close>

section \<open>Python strings\<close>

text \<open>\<^verbatim>\<open>str.isspace\<close> on one character (code points below 256).\<close>

definition py_isspace :: "char \<Rightarrow> bool" where
  "py_isspace c =
     (let n = (of_char c :: nat)
      in (9 \<le> n \<and> n \<le> 13) \<or> (28 \<le> n \<and> n \<le> 32) \<or> n = 133 \<or> n = 160)"

definition lstrip :: "string \<Rightarrow> string" where
  "lstrip s = dropWhile py_isspace s"

definition rstrip :: "string \<Rightarrow> string" where
  "rstrip s = rev (dropWhile py_isspace (rev s))"

definition strip :: "string \<Rightarrow> string" where
  "strip s = rstrip (lstrip s)"

text \<open>\<^verbatim>\<open>sep.join(parts)\<close>.\<close>

fun join :: "string \<Rightarrow> string list \<Rightarrow> string" where
  "join sep [] = []"
| "join sep [x] = x"
| "join sep (x # y # ys) = x @ sep @ join sep (y # ys)"

text \<open>\<^verbatim>\<open>s.split(c)\<close> for a one-character separator: never the empty list.\<close>

fun split_on :: "char \<Rightarrow> string \<Rightarrow> string list" where
  "split_on c [] = [[]]"
| "split_on c (x # xs) =
     (if x = c then [] # split_on c xs
      else (case split_on c xs of
              [] \<Rightarrow> [[x]]
            | p # ps \<Rightarrow> (x # p) # ps))"

text \<open>Decimal digits of a natural number, and \<^verbatim>\<open>str\<close> of an \<^verbatim>\<open>int\<close>.\<close>

definition digit_char :: "nat \<Rightarrow> char" where
  "digit_char d = ''0123456789'' ! d"

fun digits :: "nat \<Rightarrow> string" where
  "digits n = (if n < 10 then [digit_char n] else digits (n div 10) @ [digit_char (n mod 10)])"

declare digits.simps [simp del]

definition show_int :: "int \<Rightarrow> string" where
  "show_int i = (if i < 0 then CHR ''-'' # digits (nat (- i)) else digits (nat i))"

section \<open>JSON values\<close>

text \<open>
  A binary64 value: \<open>Fin x\<close> is the finite value \<open>x\<close> (\<^verbatim>\<open>0.0\<close> for \<open>x = 0\<close>), \<open>NegZero\<close> is
  \<^verbatim>\<open>-0.0\<close>.
\<close>

datatype pyfloat = Fin rat | NegZero | PosInf | NegInf | NaN

datatype json =
    JNull
  | JBool bool
  | JInt int
  | JFloat pyfloat
  | JString string
  | JArray "json list"
  | JObject "(string \<times> json) list"


text \<open>\<^verbatim>\<open>d.get(k)\<close> on a dict: \<^verbatim>\<open>None\<close> when the key is absent.\<close>

definition dict_get :: "(string \<times> json) list \<Rightarrow> string \<Rightarrow> json" where
  "dict_get kvs k = (case map_of kvs k of None \<Rightarrow> JNull | Some v \<Rightarrow> v)"

text \<open>\<^verbatim>\<open>d.get(k, dflt)\<close>.\<close>

definition dict_get_default :: "(string \<times> json) list \<Rightarrow> string \<Rightarrow> json \<Rightarrow> json" where
  "dict_get_default kvs k dflt = (case map_of kvs k of None \<Rightarrow> dflt | Some v \<Rightarrow> v)"

text \<open>Truth value of an object in a condition, and \<^verbatim>\<open>a or b\<close>.\<close>

fun py_truthy :: "json \<Rightarrow> bool" where
  "py_truthy JNull = False"
| "py_truthy (JBool b) = b"
| "py_truthy (JInt i) = (i \<noteq> 0)"
| "py_truthy (JFloat x) = (x \<noteq> Fin 0 \<and> x \<noteq> NegZero)"
| "py_truthy (JString s) = (s \<noteq> [])"
| "py_truthy (JArray xs) = (xs \<noteq> [])"
| "py_truthy (JObject kvs) = (kvs \<noteq> [])"

definition py_or :: "json \<Rightarrow> json \<Rightarrow> json" where
  "py_or a b = (if py_truthy a then a else b)"


section \<open>The library functions taken as parameters\<close>

record pylib =
  json_loads :: "string \<Rightarrow> json option"
    \<comment> \<open>\<^verbatim>\<open>json.loads\<close>; \<open>None\<close> when it raises\<close>
  float_repr :: "pyfloat \<Rightarrow> string"
    \<comment> \<open>\<^verbatim>\<open>float.__repr__\<close>, used on a finite float\<close>
  container_repr :: "json \<Rightarrow> string"
    \<comment> \<open>\<^verbatim>\<open>repr\<close> of a list or a dict\<close>
  utf8_encode :: "string \<Rightarrow> string option"
    \<comment> \<open>\<^verbatim>\<open>s.encode("utf-8")\<close>, also the encoder of a file opened with
        \<^verbatim>\<open>encoding="utf-8"\<close>; \<open>None\<close> when it raises UnicodeEncodeError\<close>
  sha256_hex :: "string \<Rightarrow> string"
    \<comment> \<open>\<^verbatim>\<open>hashlib.sha256(b).hexdigest()\<close> of the encoded bytes\<close>
  shuffle :: "int \<Rightarrow> string list \<Rightarrow> string list"
    \<comment> \<open>\<^verbatim>\<open>random.Random(seed).shuffle\<close>, returning the shuffled list\<close>
  float_of_str :: "string \<Rightarrow> pyfloat option"
    \<comment> \<open>\<^verbatim>\<open>float(s)\<close> on a \<^verbatim>\<open>str\<close>; \<open>None\<close> when it raises ValueError\<close>
  int_of_str :: "string \<Rightarrow> int option"
    \<comment> \<open>\<^verbatim>\<open>int(s)\<close> on a \<^verbatim>\<open>str\<close>; \<open>None\<close> when it raises ValueError\<close>
  utcnow_iso :: "nat \<Rightarrow> string"
    \<comment> \<open>\<^verbatim>\<open>datetime.utcnow().isoformat()\<close> at the \<open>n\<close>-th reading of the clock\<close>
  dumps_indent :: "json \<Rightarrow> string"
    \<comment> \<open>\<^verbatim>\<open>json.dumps(obj, indent=2, ensure_ascii=False)\<close>\<close>

text \<open>\<^verbatim>\<open>str(x)\<close>, also what an f-string writes for \<^verbatim>\<open>{x}\<close>.\<close>

fun py_str :: "'a pylib_scheme \<Rightarrow> json \<Rightarrow> string" where
  "py_str L JNull = ''None''"
| "py_str L (JBool b) = (if b then ''True'' else ''False'')"
| "py_str L (JInt i) = show_int i"
| "py_str L (JFloat x) =
     (case x of
        PosInf \<Rightarrow> ''inf''
      | NegInf \<Rightarrow> ''-inf''
      | NaN \<Rightarrow> ''nan''
      | _ \<Rightarrow> float_repr L x)"
| "py_str L (JString s) = s"
| "py_str L (JArray xs) = container_repr L (JArray xs)"
| "py_str L (JObject kvs) = container_repr L (JObject kvs)"

section \<open>\<^verbatim>\<open>json.dumps\<close>\<close>

text \<open>
  The escapes of \<^verbatim>\<open>json.encoder.py_encode_basestring\<close> (used with
  \<^verbatim>\<open>ensure_ascii=False\<close>): the backslash, the double quote and the control characters.
\<close>

definition hex_char :: "nat \<Rightarrow> char" where
  "hex_char d = ''0123456789abcdef'' ! d"

definition escape_char :: "char \<Rightarrow> string" where
  "escape_char c =
     (let n = (of_char c :: nat) in
      if n = 92 then [CHR 0x5C, CHR 0x5C]
      else if n = 34 then [CHR 0x5C, CHR 0x22]
      else if n = 8 then [CHR 0x5C, CHR ''b'']
      else if n = 12 then [CHR 0x5C, CHR ''f'']
      else if n = 10 then [CHR 0x5C, CHR ''n'']
      else if n = 13 then [CHR 0x5C, CHR ''r'']
      else if n = 9 then [CHR 0x5C, CHR ''t'']
      else if n < 32 then [CHR 0x5C, CHR ''u'', CHR ''0'', CHR ''0'', hex_char (n div 16), hex_char (n mod 16)]
      else [c])"

definition encode_basestring :: "string \<Rightarrow> string" where
  "encode_basestring s = CHR 0x22 # concat (map escape_char s) @ [CHR 0x22]"

text \<open>
  \<^verbatim>\<open>json.dumps(obj, sort_keys=sk, ensure_ascii=False)\<close> with the default separators.
  With \<^verbatim>\<open>sort_keys\<close> the items of every dict are written in the order of their keys.
\<close>

fun dumps :: "'a pylib_scheme \<Rightarrow> bool \<Rightarrow> json \<Rightarrow> string" where
  "dumps L sk JNull = ''null''"
| "dumps L sk (JBool b) = (if b then ''true'' else ''false'')"
| "dumps L sk (JInt i) = show_int i"
| "dumps L sk (JFloat x) =
     (case x of
        PosInf \<Rightarrow> ''Infinity''
      | NegInf \<Rightarrow> ''-Infinity''
      | NaN \<Rightarrow> ''NaN''
      | _ \<Rightarrow> float_repr L x)"
| "dumps L sk (JString s) = encode_basestring s"
| "dumps L sk (JArray xs) = ''['' @ join '', '' (map (dumps L sk) xs) @ '']''"
| "dumps L sk (JObject kvs) =
     ''{'' @ join '', ''
        (map (\<lambda>(k, s). encode_basestring k @ '': '' @ s)
          ((if sk then sort_key fst else id) (map (\<lambda>(k, v). (k, dumps L sk v)) kvs))) @ ''}''"

section \<open>Uncaught exceptions\<close>

datatype error =
    AttributeError
  | TypeError
  | ValueError
  | OverflowError
  | UnicodeEncodeError
  | JSONDecodeError
  | FileNotFoundError
  | FileExistsError
  | SystemExit string

section \<open>\<^verbatim>\<open>validate_jsonl.py\<close>: the conversational format\<close>

text \<open>
  \<^verbatim>\<open>m.get("role") not in roles\<close>, negated. \<^verbatim>\<open>roles\<close> is a set, so the test hashes the
  value and raises TypeError on a list or a dict.
\<close>

fun in_roles :: "json \<Rightarrow> error + bool" where
  "in_roles (JString s) = Inr (s \<in> {''system'', ''user'', ''assistant'', ''tool''})"
| "in_roles (JArray xs) = Inl TypeError"
| "in_roles (JObject kvs) = Inl TypeError"
| "in_roles _ = Inr False"

text \<open>\<^verbatim>\<open>isinstance(c, str) and c.strip()\<close>.\<close>

fun content_ok :: "json \<Rightarrow> bool" where
  "content_ok (JString s) = (strip s \<noteq> [])"
| "content_ok _ = False"

text \<open>
  The loop over \<^verbatim>\<open>enumerate(msgs)\<close>: \<open>None\<close> when it runs to its end, the reason of
  the first \<^verbatim>\<open>return False, ...\<close> otherwise.
\<close>

fun check_msgs :: "nat \<Rightarrow> json list \<Rightarrow> error + string option" where
  "check_msgs i [] = Inr None"
| "check_msgs i (m # ms) =
     (case m of
        JObject f \<Rightarrow>
          (case in_roles (dict_get f ''role'') of
             Inl e \<Rightarrow> Inl e
           | Inr False \<Rightarrow> Inr (Some (''message['' @ show_int (int i) @ ''] invalid role''))
           | Inr True \<Rightarrow>
               if \<not> content_ok (dict_get f ''content'')
               then Inr (Some (''message['' @ show_int (int i) @ ''] missing content''))
               else check_msgs (i + 1) ms)
      | _ \<Rightarrow> Inr (Some (''message['' @ show_int (int i) @ ''] not object'')))"

text \<open>\<^verbatim>\<open>m.get("role") == r\<close> for a message \<^verbatim>\<open>m\<close> that the loop has accepted.\<close>

fun has_role :: "string \<Rightarrow> json \<Rightarrow> bool" where
  "has_role r (JObject f) = (dict_get f ''role'' = JString r)"
| "has_role r _ = False"

fun validate_chat :: "json \<Rightarrow> error + bool \<times> string option" where
  "validate_chat (JObject obj) =
     (case dict_get obj ''messages'' of
        JArray msgs \<Rightarrow>
          if length msgs < 2 then Inr (False, Some ''missing/invalid messages'')
          else (case check_msgs 0 msgs of
                  Inl e \<Rightarrow> Inl e
                | Inr (Some reason) \<Rightarrow> Inr (False, Some reason)
                | Inr None \<Rightarrow>
                    let has_user = list_ex (has_role ''user'') msgs;
                        has_assistant = list_ex (has_role ''assistant'') msgs
                    in if \<not> (has_user \<and> has_assistant)
                       then Inr (False, Some ''need at least one user and one assistant message'')
                       else Inr (True, None))
      | _ \<Rightarrow> Inr (False, Some ''missing/invalid messages''))"
| "validate_chat _ = Inl AttributeError"

text \<open>A message is a user turn: an object whose role is \<^verbatim>\<open>"user"\<close>.\<close>

definition user_turn :: "json \<Rightarrow> bool" where
  "user_turn m = has_role ''user'' m"

definition chat_record :: "string \<Rightarrow> string \<Rightarrow> json" where
  "chat_record c1 c2 =
     JObject [(''messages'', JArray
       [JObject [(''role'', JString ''user''), (''content'', JString c1)],
        JObject [(''role'', JString ''assistant''), (''content'', JString c2)]])]"

section \<open>Python floats\<close>

text \<open>
  A finite binary64 value is the rational it denotes. \<open>rnd\<close> is IEEE-754 rounding to the
  nearest value with a 53-bit significand, ties to even, with the subnormal spacing
  \<open>2 powi (-1074)\<close> at the bottom of the range. Overflow to infinity is not modelled.
\<close>

definition round_half_even :: "rat \<Rightarrow> int" where
  "round_half_even x =
     (let f = \<lfloor>x\<rfloor>; d = x - of_int f
      in if d < 1 / 2 then f else if 1 / 2 < d then f + 1 else if even f then f else f + 1)"

text \<open>The exponent \<open>e\<close> with \<open>2 powi e \<le> x < 2 powi (e + 1)\<close>, for \<open>0 < x\<close>.\<close>

definition binade :: "rat \<Rightarrow> int" where
  "binade x =
     (let (p, q) = quotient_of x; e0 = bitlen p - bitlen q
      in if 2 powi e0 \<le> x then e0 else e0 - 1)"

definition rnd :: "rat \<Rightarrow> rat" where
  "rnd x =
     (if x = 0 then 0
      else let e = max (binade \<bar>x\<bar> - 52) (- 1074);
               m = round_half_even (\<bar>x\<bar> / 2 powi e)
           in sgn x * of_int m * 2 powi e)"

definition fadd :: "rat \<Rightarrow> rat \<Rightarrow> rat" where
  "fadd a b = rnd (a + b)"

definition fsub :: "rat \<Rightarrow> rat \<Rightarrow> rat" where
  "fsub a b = rnd (a - b)"

definition fmul :: "rat \<Rightarrow> rat \<Rightarrow> rat" where
  "fmul a b = rnd (a * b)"

text \<open>The conversion of an \<^verbatim>\<open>int\<close> operand in mixed arithmetic, also \<^verbatim>\<open>float(i)\<close>.\<close>

definition float_of_int :: "int \<Rightarrow> rat" where
  "float_of_int i = rnd (of_int i)"

text \<open>\<^verbatim>\<open>int(x)\<close> on a float: truncation towards zero.\<close>

definition int_of_float :: "rat \<Rightarrow> int" where
  "int_of_float x = (if x < 0 then - \<lfloor>- x\<rfloor> else \<lfloor>x\<rfloor>)"

text \<open>
  \<^verbatim>\<open>abs((train+val+test)-1.0)>1e-9\<close>, the test that both splitters make on their
  fractions before anything else.
\<close>

definition bad_fractions :: "rat \<Rightarrow> rat \<Rightarrow> rat \<Rightarrow> bool" where
  "bad_fractions tr va te = (\<bar>fsub (fadd (fadd tr va) te) 1\<bar> > rnd (1 / 10 ^ 9))"

section \<open>Sequences\<close>

text \<open>
  An index of a slice, clipped as Python clips it: a negative index counts from the end,
  and an index outside the list stops at its nearer end.
\<close>

definition clip_index :: "nat \<Rightarrow> int \<Rightarrow> nat" where
  "clip_index len i = (if i < 0 then nat (max 0 (int len + i)) else min len (nat i))"

text \<open>\<^verbatim>\<open>xs[lo:hi]\<close>; \<open>None\<close> is an omitted bound.\<close>

definition slice :: "'a list \<Rightarrow> int option \<Rightarrow> int option \<Rightarrow> 'a list" where
  "slice xs lo hi =
     (let a = (case lo of None \<Rightarrow> 0 | Some i \<Rightarrow> clip_index (length xs) i);
          b = (case hi of None \<Rightarrow> length xs | Some j \<Rightarrow> clip_index (length xs) j)
      in take (b - a) (drop a xs))"

section \<open>Files\<close>

text \<open>
  The file system is a map from paths to the text of regular files, with a log of the
  operations performed on it. Permissions, and a directory standing where a file is to be
  opened, are not modelled.
\<close>

datatype io_event = IoRead string | IoMakedirs string | IoWrite string | IoAppend string

record world =
  files :: "string \<Rightarrow> string option"
  io_log :: "io_event list"

text \<open>\<^verbatim>\<open>open(p, "r")\<close> and reading the whole text.\<close>

definition read_text :: "world \<Rightarrow> string \<Rightarrow> error + string \<times> world" where
  "read_text w p =
     (case files w p of
        None \<Rightarrow> Inl FileNotFoundError
      | Some s \<Rightarrow> Inr (s, w\<lparr>io_log := io_log w @ [IoRead p]\<rparr>))"

text \<open>\<^verbatim>\<open>open(p, "w")\<close>, writing \<open>s\<close>, and closing.\<close>

definition write_text :: "world \<Rightarrow> string \<Rightarrow> string \<Rightarrow> world" where
  "write_text w p s = w\<lparr>files := (files w)(p \<mapsto> s), io_log := io_log w @ [IoWrite p]\<rparr>"

text \<open>\<^verbatim>\<open>open(p, "a")\<close>, writing \<open>s\<close>, and closing: a missing file is created.\<close>

definition append_text :: "world \<Rightarrow> string \<Rightarrow> string \<Rightarrow> world" where
  "append_text w p s =
     w\<lparr>files := (files w)(p \<mapsto> (case files w p of None \<Rightarrow> s | Some old \<Rightarrow> old @ s)),
       io_log := io_log w @ [IoAppend p]\<rparr>"

text \<open>
  \<^verbatim>\<open>os.makedirs(p, exist_ok=True)\<close>: the empty path and the path of a regular file raise.
\<close>

definition makedirs :: "world \<Rightarrow> string \<Rightarrow> error + world" where
  "makedirs w p =
     (if p = [] then Inl FileNotFoundError
      else if files w p \<noteq> None then Inl FileExistsError
      else Inr (w\<lparr>io_log := io_log w @ [IoMakedirs p]\<rparr>))"

text \<open>\<^verbatim>\<open>os.path.join(a, b)\<close> and \<^verbatim>\<open>os.path.dirname(p)\<close> of \<^verbatim>\<open>posixpath\<close>.\<close>

definition path_join :: "string \<Rightarrow> string \<Rightarrow> string" where
  "path_join a b =
     (if b \<noteq> [] \<and> hd b = CHR ''/'' then b
      else if a = [] \<or> last a = CHR ''/'' then a @ b
      else a @ ''/'' @ b)"

definition dirname :: "string \<Rightarrow> string" where
  "dirname p =
     (let head = rev (dropWhile (\<lambda>c. c \<noteq> CHR ''/'') (rev p))
      in if head \<noteq> [] \<and> \<not> list_all (\<lambda>c. c = CHR ''/'') head
         then rev (dropWhile (\<lambda>c. c = CHR ''/'') (rev head))
         else head)"

text \<open>
  The lines that iterating over a text file gives: \<^verbatim>\<open>"\r\n"\<close> and \<^verbatim>\<open>"\r"\<close> are read
  as \<^verbatim>\<open>"\n"\<close>, and every line keeps its final \<^verbatim>\<open>"\n"\<close>.
\<close>

fun universal_newlines :: "string \<Rightarrow> string" where
  "universal_newlines [] = []"
| "universal_newlines [c] = (if c = CHR 0x0D then [CHR 0x0A] else [c])"
| "universal_newlines (c # d # cs) =
     (if c = CHR 0x0D
      then (if d = CHR 0x0A then CHR 0x0A # universal_newlines cs
            else CHR 0x0A # universal_newlines (d # cs))
      else c # universal_newlines (d # cs))"

fun split_lines :: "string \<Rightarrow> string list" where
  "split_lines [] = []"
| "split_lines (c # cs) =
     (if c = CHR 0x0A then [c] # split_lines cs
      else (case split_lines cs of
              [] \<Rightarrow> [[c]]
            | l # ls \<Rightarrow> (c # l) # ls))"

definition file_lines :: "string \<Rightarrow> string list" where
  "file_lines s = split_lines (universal_newlines s)"

text \<open>The text that \<^verbatim>\<open>for ln in lines: fo.write(ln.rstrip()+"\n")\<close> writes.\<close>

definition lines_text :: "string list \<Rightarrow> string" where
  "lines_text ls = concat (map (\<lambda>ln. rstrip ln @ [CHR 0x0A]) ls)"

section \<open>\<^verbatim>\<open>get_path\<close>\<close>

text \<open>The loop over the parts of the dotted path; \<open>JNull\<close> is \<^verbatim>\<open>None\<close>.\<close>

fun walk_path :: "json \<Rightarrow> string list \<Rightarrow> json" where
  "walk_path cur [] = cur"
| "walk_path (JObject kvs) (part # rest) =
     (case map_of kvs part of
        Some v \<Rightarrow> walk_path v rest
      | None \<Rightarrow> JNull)"
| "walk_path _ (part # rest) = JNull"

definition get_path :: "json \<Rightarrow> string \<Rightarrow> json" where
  "get_path obj path = walk_path obj (split_on CHR ''.'' path)"

section \<open>The two splitters\<close>

record split_args =
  inp :: string
  outdir :: string
  seed :: int
  train :: rat
  val :: rat
  test :: rat

record gsplit_args = split_args +
  group_key :: string

text \<open>
  The allocation that both scripts make after the shuffle: \<^verbatim>\<open>n_train=int(total*train)\<close>,
  \<^verbatim>\<open>n_val=int(total*val)\<close>, and the three slices \<^verbatim>\<open>[:n_train]\<close>,
  \<^verbatim>\<open>[n_train:n_train+n_val]\<close>, \<^verbatim>\<open>[n_train+n_val:]\<close>.
\<close>

definition n_of :: "nat \<Rightarrow> rat \<Rightarrow> int" where
  "n_of ntotal fr = int_of_float (fmul (float_of_int (int ntotal)) fr)"

definition allocate :: "rat \<Rightarrow> rat \<Rightarrow> 'a list \<Rightarrow> 'a list \<times> 'a list \<times> 'a list" where
  "allocate tr va keys =
     (let ntotal = length keys;
          n_train = n_of ntotal tr;
          n_val = n_of ntotal va
      in (slice keys None (Some n_train),
          slice keys (Some n_train) (Some (n_train + n_val)),
          slice keys (Some (n_train + n_val)) None))"

subsection \<open>\<^verbatim>\<open>group_split_jsonl.py\<close>\<close>

text \<open>\<^verbatim>\<open>groups[k].append(line)\<close> on a \<^verbatim>\<open>defaultdict(list)\<close>, which keeps insertion order.\<close>

fun groups_append :: "(string \<times> string list) list \<Rightarrow> string \<Rightarrow> string \<Rightarrow> (string \<times> string list) list" where
  "groups_append [] k line = [(k, [line])]"
| "groups_append ((k', ls) # rest) k line =
     (if k' = k then (k', ls @ [line]) # rest
      else (k', ls) # groups_append rest k line)"

text \<open>The group key of a parsed record: \<^verbatim>\<open>str(g)\<close>, with the sentinel for \<^verbatim>\<open>None\<close>.\<close>

definition group_of :: "'a pylib_scheme \<Rightarrow> string \<Rightarrow> json \<Rightarrow> string" where
  "group_of L key obj =
     (let g = get_path obj key
      in py_str L (if g = JNull then JString ''__MISSING__'' else g))"

text \<open>One turn of the reading loop, on the pair of \<^verbatim>\<open>groups\<close> and the counter \<^verbatim>\<open>n\<close>.\<close>

definition group_step ::
  "'a pylib_scheme \<Rightarrow> string \<Rightarrow> (string \<times> string list) list \<times> nat \<Rightarrow> string
     \<Rightarrow> (string \<times> string list) list \<times> nat" where
  "group_step L key st raw =
     (let line = strip raw in
      if line = [] then st
      else case json_loads L line of
             None \<Rightarrow> st
           | Some obj \<Rightarrow> (groups_append (fst st) (group_of L key obj) line, snd st + 1))"

definition read_groups ::
  "'a pylib_scheme \<Rightarrow> string \<Rightarrow> string list \<Rightarrow> (string \<times> string list) list \<times> nat" where
  "read_groups L key lines = foldl (group_step L key) ([], 0) lines"

text \<open>\<^verbatim>\<open>flatten(klist)\<close>; a key that \<^verbatim>\<open>groups\<close> lacks gives the empty default.\<close>

definition flatten :: "(string \<times> string list) list \<Rightarrow> string list \<Rightarrow> string list" where
  "flatten groups klist =
     concat (map (\<lambda>k. case map_of groups k of None \<Rightarrow> [] | Some ls \<Rightarrow> ls) klist)"

text \<open>The shuffled keys and their allocation (lines 42 to 51).\<close>

definition shuffled_keys :: "'a pylib_scheme \<Rightarrow> 'b gsplit_args_scheme \<Rightarrow> string list \<Rightarrow> string list" where
  "shuffled_keys L a lines = shuffle L (seed a) (map fst (fst (read_groups L (group_key a) lines)))"

definition split_keys ::
  "'a pylib_scheme \<Rightarrow> 'b gsplit_args_scheme \<Rightarrow> string list
     \<Rightarrow> string list \<times> string list \<times> string list" where
  "split_keys L a lines = allocate (train a) (val a) (shuffled_keys L a lines)"

text \<open>The lines of the three partitions (lines 28 to 60), from the lines of the input.\<close>

definition group_split ::
  "'a pylib_scheme \<Rightarrow> 'b gsplit_args_scheme \<Rightarrow> string list
     \<Rightarrow> string list \<times> string list \<times> string list" where
  "group_split L a lines =
     (let groups = fst (read_groups L (group_key a) lines);
          (train_keys, val_keys, test_keys) = split_keys L a lines
      in (flatten groups train_keys, flatten groups val_keys, flatten groups test_keys))"

record split_summary =
  rows :: nat
  n_groups :: nat
  train_rows :: nat
  val_rows :: nat
  test_rows :: nat

definition group_split_main ::
  "'a pylib_scheme \<Rightarrow> world \<Rightarrow> 'b gsplit_args_scheme \<Rightarrow> (error + split_summary) \<times> world" where
  "group_split_main L w a =
     (if bad_fractions (train a) (val a) (test a)
      then (Inl (SystemExit ''train+val+test must sum to 1.0''), w)
      else case read_text w (inp a) of
             Inl e \<Rightarrow> (Inl e, w)
           | Inr (text, w1) \<Rightarrow>
               let lines = file_lines text;
                   (groups, n) = read_groups L (group_key a) lines;
                   (train_lines, val_lines, test_lines) = group_split L a lines
               in case makedirs w1 (outdir a) of
                    Inl e \<Rightarrow> (Inl e, w1)
                  | Inr w2 \<Rightarrow>
                      let w3 = write_text w2 (path_join (outdir a) ''train.jsonl'') (lines_text train_lines);
                          w4 = write_text w3 (path_join (outdir a) ''val.jsonl'') (lines_text val_lines);
                          w5 = write_text w4 (path_join (outdir a) ''test.jsonl'') (lines_text test_lines)
                      in (Inr \<lparr>rows = n, n_groups = length groups,
                               train_rows = length train_lines, val_rows = length val_lines,
                               test_rows = length test_lines\<rparr>, w5))"

subsection \<open>\<^verbatim>\<open>split_jsonl.py\<close>\<close>

definition split_main ::
  "'a pylib_scheme \<Rightarrow> world \<Rightarrow> 'b split_args_scheme \<Rightarrow> (error + split_summary) \<times> world" where
  "split_main L w a =
     (if bad_fractions (train a) (val a) (test a)
      then (Inl (SystemExit ''train+val+test must sum to 1.0''), w)
      else case makedirs w (outdir a) of
             Inl e \<Rightarrow> (Inl e, w)
           | Inr w1 \<Rightarrow>
               (case read_text w1 (inp a) of
                  Inl e \<Rightarrow> (Inl e, w1)
                | Inr (text, w2) \<Rightarrow>
                    let lines = shuffle L (seed a) (filter (\<lambda>ln. strip ln \<noteq> []) (file_lines text));
                        (train_l, val_l, test_l) = allocate (train a) (val a) lines;
                        w3 = write_text w2 (path_join (outdir a) ''train.jsonl'') (lines_text train_l);
                        w4 = write_text w3 (path_join (outdir a) ''val.jsonl'') (lines_text val_l);
                        w5 = write_text w4 (path_join (outdir a) ''test.jsonl'') (lines_text test_l)
                    in (Inr \<lparr>rows = length lines, n_groups = length lines,
                             train_rows = length train_l, val_rows = length val_l,
                             test_rows = length test_l\<rparr>, w5)))"

subsection \<open>The vocabulary of the statements about the reading loops\<close>

text \<open>
  The lines that a reading loop keeps: stripped, not blank, and accepted by the parser.
  The group of such a line is the group key of the record it parses to.
\<close>

definition kept_lines :: "'a pylib_scheme \<Rightarrow> string list \<Rightarrow> string list" where
  "kept_lines L lines = filter (\<lambda>l. l \<noteq> [] \<and> json_loads L l \<noteq> None) (map strip lines)"

definition line_group :: "'a pylib_scheme \<Rightarrow> string \<Rightarrow> string \<Rightarrow> string" where
  "line_group L key l = (case json_loads L l of None \<Rightarrow> [] | Some obj \<Rightarrow> group_of L key obj)"

section \<open>\<^verbatim>\<open>dedupe_jsonl.py\<close>\<close>

text \<open>
  The digest \<^verbatim>\<open>h(obj)\<close> of the canonical text, the one with sorted keys. Encoding the
  text raises UnicodeEncodeError when the record holds a lone surrogate.
\<close>

definition h :: "'a pylib_scheme \<Rightarrow> json \<Rightarrow> error + string" where
  "h L obj =
     (case utf8_encode L (dumps L True obj) of
        None \<Rightarrow> Inl UnicodeEncodeError
      | Some b \<Rightarrow> Inr (sha256_hex L b))"

text \<open>
  The state of the loop: the set \<^verbatim>\<open>seen\<close>, the text written to \<^verbatim>\<open>fout\<close> so far, and
  the two counters.
\<close>

record dedupe_state =
  seen :: "string set"
  fout :: string
  n_in :: nat
  n_out :: nat

text \<open>
  One turn of the loop. Only \<^verbatim>\<open>json.loads\<close> stands in the \<^verbatim>\<open>try\<close>: an exception of
  \<^verbatim>\<open>h\<close>, or of the file's encoder in \<^verbatim>\<open>fout.write\<close>, ends the run.
\<close>

definition dedupe_step :: "'a pylib_scheme \<Rightarrow> dedupe_state \<Rightarrow> string \<Rightarrow> error + dedupe_state" where
  "dedupe_step L st raw =
     (let line = strip raw in
      if line = [] then Inr st
      else let st1 = st\<lparr>n_in := n_in st + 1\<rparr> in
        case json_loads L line of
          None \<Rightarrow> Inr st1
        | Some obj \<Rightarrow>
            (case h L obj of
               Inl e \<Rightarrow> Inl e
             | Inr key \<Rightarrow>
                 if key \<in> seen st1 then Inr st1
                 else (case utf8_encode L (dumps L False obj @ [CHR 0x0A]) of
                         None \<Rightarrow> Inl UnicodeEncodeError
                       | Some b \<Rightarrow>
                           Inr (st1\<lparr>seen := insert key (seen st1),
                                    fout := fout st1 @ dumps L False obj @ [CHR 0x0A],
                                    n_out := n_out st1 + 1\<rparr>))))"

text \<open>
  The loop over the lines of the input: the exception that ended it, if any, and the
  state reached. What was written before an exception stays written, since the
  \<^verbatim>\<open>with\<close> block closes the file; the line that raised was counted in \<^verbatim>\<open>n_in\<close>
  before it was parsed.
\<close>

fun dedupe_loop :: "'a pylib_scheme \<Rightarrow> dedupe_state \<Rightarrow> string list \<Rightarrow> error option \<times> dedupe_state" where
  "dedupe_loop L st [] = (None, st)"
| "dedupe_loop L st (raw # rest) =
     (case dedupe_step L st raw of
        Inl e \<Rightarrow> (Some e, st\<lparr>n_in := n_in st + 1\<rparr>)
      | Inr st' \<Rightarrow> dedupe_loop L st' rest)"

definition dedupe :: "'a pylib_scheme \<Rightarrow> string list \<Rightarrow> error option \<times> dedupe_state" where
  "dedupe L lines = dedupe_loop L \<lparr>seen = {}, fout = [], n_in = 0, n_out = 0\<rparr> lines"

record dedupe_args =
  d_inp :: string
  d_out :: string

text \<open>
  \<^verbatim>\<open>main\<close>: both files are opened before the loop, and opening the output truncates
  it, so an output path equal to the input path leaves nothing to read.
\<close>

definition dedupe_main ::
  "'a pylib_scheme \<Rightarrow> world \<Rightarrow> dedupe_args \<Rightarrow> (error + nat \<times> nat) \<times> world" where
  "dedupe_main L w a =
     (case read_text w (d_inp a) of
        Inl e \<Rightarrow> (Inl e, w)
      | Inr (text, w1) \<Rightarrow>
          let (err, st) = dedupe L (file_lines (if d_out a = d_inp a then [] else text));
              w2 = write_text w1 (d_out a) (fout st)
          in (case err of
                Some e \<Rightarrow> (Inl e, w2)
              | None \<Rightarrow> (Inr (n_in st, n_out st), w2)))"

subsection \<open>The vocabulary of the statements about the deduplicator\<close>




text \<open>The text of a file that holds one line for each of the records.\<close>

definition jsonl_text :: "'a pylib_scheme \<Rightarrow> json list \<Rightarrow> string" where
  "jsonl_text L rs = concat (map (\<lambda>obj. dumps L False obj @ [CHR 0x0A]) rs)"

text \<open>
  What is assumed of \<^verbatim>\<open>float.__repr__\<close> where the text written is read again: it is
  not empty and has no white space.
\<close>

definition repr_ok :: "string \<Rightarrow> bool" where
  "repr_ok s = (s \<noteq> [] \<and> list_all (\<lambda>c. \<not> py_isspace c) s)"

text \<open>A text without a line break, and a text that \<open>strip\<close> leaves as it is.\<close>

definition no_nl :: "string \<Rightarrow> bool" where
  "no_nl s = (CHR 0x0A \<notin> set s \<and> CHR 0x0D \<notin> set s)"


section \<open>\<^verbatim>\<open>stats_report.py\<close>\<close>

text \<open>\<^verbatim>\<open>msg_text_len(m)\<close> for a dict \<^verbatim>\<open>m\<close>.\<close>

definition msg_text_len :: "(string \<times> json) list \<Rightarrow> nat" where
  "msg_text_len m =
     (case dict_get_default m ''content'' (JString []) of
        JString c \<Rightarrow> length c
      | _ \<Rightarrow> 0)"

text \<open>
  \<^verbatim>\<open>sum(msg_text_len(m) for m in msgs if isinstance(m, dict))\<close>, where \<^verbatim>\<open>msgs\<close> is
  \<^verbatim>\<open>obj.get("messages") or []\<close>. A str gives its characters and a dict its keys, none of
  them a dict; a number or \<^verbatim>\<open>True\<close> cannot be iterated.
\<close>

fun chat_length :: "json \<Rightarrow> error + nat" where
  "chat_length (JArray ms) =
     Inr (sum_list (map (\<lambda>m. case m of JObject f \<Rightarrow> msg_text_len f | _ \<Rightarrow> 0) ms))"
| "chat_length (JString s) = Inr 0"
| "chat_length (JObject kvs) = Inr 0"
| "chat_length _ = Inl TypeError"

datatype mode = Chat | Instruction

text \<open>The length of one record (lines 37 to 41).\<close>

fun record_length :: "'a pylib_scheme \<Rightarrow> mode \<Rightarrow> json \<Rightarrow> error + nat" where
  "record_length L Chat (JObject obj) =
     chat_length (py_or (dict_get obj ''messages'') (JArray []))"
| "record_length L Instruction (JObject obj) =
     Inr (sum_list (map (\<lambda>k. length (py_str L (dict_get_default obj k (JString []))))
            [''instruction'', ''input'', ''output'']))"
| "record_length L m _ = Inl AttributeError"

text \<open>\<^verbatim>\<open>if args.label_path:\<close> holds for a path that is given and not empty.\<close>

definition given :: "string option \<Rightarrow> bool" where
  "given p = (case p of None \<Rightarrow> False | Some s \<Rightarrow> s \<noteq> [])"

record stats_state =
  lengths :: "nat list"
  label_counts :: "(string \<times> nat) list"
  s_n :: nat
  n_missing_label :: nat

text \<open>\<^verbatim>\<open>label_counts[key]=label_counts.get(key,0)+1\<close> on a dict in insertion order.\<close>

fun count_label :: "(string \<times> nat) list \<Rightarrow> string \<Rightarrow> (string \<times> nat) list" where
  "count_label [] key = [(key, 1)]"
| "count_label ((k, c) # rest) key =
     (if k = key then (k, c + 1) # rest else (k, c) # count_label rest key)"

definition stats_step ::
  "'a pylib_scheme \<Rightarrow> mode \<Rightarrow> string option \<Rightarrow> stats_state \<Rightarrow> string \<Rightarrow> error + stats_state" where
  "stats_step L m label_path st raw =
     (let line = strip raw in
      if line = [] then Inr st
      else case json_loads L line of
             None \<Rightarrow> Inr st
           | Some obj \<Rightarrow>
               (case record_length L m obj of
                  Inl e \<Rightarrow> Inl e
                | Inr len \<Rightarrow>
                    let st1 = st\<lparr>s_n := s_n st + 1, lengths := lengths st @ [len]\<rparr> in
                    if given label_path
                    then (let lab = get_path obj (the label_path) in
                          if lab = JNull
                          then Inr (st1\<lparr>n_missing_label := n_missing_label st1 + 1\<rparr>)
                          else Inr (st1\<lparr>label_counts := count_label (label_counts st1) (py_str L lab)\<rparr>))
                    else Inr st1))"

fun stats_loop ::
  "'a pylib_scheme \<Rightarrow> mode \<Rightarrow> string option \<Rightarrow> stats_state \<Rightarrow> string list \<Rightarrow> error + stats_state" where
  "stats_loop L m label_path st [] = Inr st"
| "stats_loop L m label_path st (raw # rest) =
     (case stats_step L m label_path st raw of
        Inl e \<Rightarrow> Inl e
      | Inr st' \<Rightarrow> stats_loop L m label_path st' rest)"

text \<open>
  The functions of \<^verbatim>\<open>statistics\<close> on a non-empty list of ints. A result that Python
  gives as an int is a \<open>JInt\<close>; a true division gives the float nearest to the quotient.
\<close>

definition py_median :: "nat list \<Rightarrow> json" where
  "py_median xs =
     (let data = sort xs; n = length data; i = n div 2
      in if n mod 2 = 1 then JInt (int (data ! i))
         else JFloat (Fin (rnd (of_nat (data ! (i - 1) + data ! i) / 2))))"

text \<open>\<^verbatim>\<open>statistics.quantiles(xs, n=10)[8]\<close>, the exclusive method, for at least two data.\<close>

definition py_p90 :: "nat list \<Rightarrow> json" where
  "py_p90 xs =
     (let data = sort xs; ld = length data; m = ld + 1;
          j0 = 9 * m div 10;
          j = (if j0 < 1 then 1 else if j0 > ld - 1 then ld - 1 else j0);
          delta = 9 * m - j * 10
      in JFloat (Fin (rnd (of_nat (data ! (j - 1) * (10 - delta) + data ! j * delta) / 10))))"

definition py_mean :: "nat list \<Rightarrow> json" where
  "py_mean xs =
     (if sum_list xs mod length xs = 0 then JInt (int (sum_list xs div length xs))
      else JFloat (Fin (rnd (of_nat (sum_list xs) / of_nat (length xs)))))"

text \<open>The dict \<^verbatim>\<open>report\<close> (lines 51 to 65).\<close>

definition length_chars :: "nat list \<Rightarrow> json" where
  "length_chars ls =
     JObject
       [(''min'', if ls \<noteq> [] then JInt (int (Min (set ls))) else JInt 0),
        (''p50'', if ls \<noteq> [] then py_median ls else JInt 0),
        (''p90'', if length ls \<ge> 10 then py_p90 ls
                  else (if ls \<noteq> [] then JInt (int (Max (set ls))) else JInt 0)),
        (''max'', if ls \<noteq> [] then JInt (int (Max (set ls))) else JInt 0),
        (''mean'', if ls \<noteq> [] then py_mean ls else JInt 0)]"

definition labels_report :: "string option \<Rightarrow> stats_state \<Rightarrow> json" where
  "labels_report label_path st =
     (if given label_path
      then JObject
        [(''label_path'', JString (the label_path)),
         (''missing'', JInt (int (n_missing_label st))),
         (''counts'', JObject (map (\<lambda>(k, c). (k, JInt (int c)))
                        (sort_key (\<lambda>(k, c). - int c) (label_counts st))))]
      else JNull)"

definition report_of :: "string option \<Rightarrow> stats_state \<Rightarrow> json" where
  "report_of label_path st =
     JObject
       [(''count'', JInt (int (s_n st))),
        (''length_chars'', length_chars (lengths st)),
        (''labels'', labels_report label_path st)]"

text \<open>The report for the lines of an input, or the exception that ends the run.\<close>

definition stats :: "'a pylib_scheme \<Rightarrow> mode \<Rightarrow> string option \<Rightarrow> string list \<Rightarrow> error + json" where
  "stats L m label_path lines =
     (case stats_loop L m label_path \<lparr>lengths = [], label_counts = [], s_n = 0, n_missing_label = 0\<rparr> lines of
        Inl e \<Rightarrow> Inl e
      | Inr st \<Rightarrow> Inr (report_of label_path st))"

record stats_args =
  s_inp :: string
  s_mode :: mode
  s_label_path :: "string option"
  s_out :: string

definition stats_main :: "'a pylib_scheme \<Rightarrow> world \<Rightarrow> stats_args \<Rightarrow> (error + json) \<times> world" where
  "stats_main L w a =
     (case read_text w (s_inp a) of
        Inl e \<Rightarrow> (Inl e, w)
      | Inr (text, w1) \<Rightarrow>
          (case stats L (s_mode a) (s_label_path a) (file_lines text) of
             Inl e \<Rightarrow> (Inl e, w1)
           | Inr report \<Rightarrow> (Inr report, write_text w1 (s_out a) (dumps_indent L report))))"

text \<open>The report of a run that counted no record.\<close>

definition empty_report :: "string option \<Rightarrow> json" where
  "empty_report label_path =
     JObject
       [(''count'', JInt 0),
        (''length_chars'',
           JObject [(''min'', JInt 0), (''p50'', JInt 0), (''p90'', JInt 0), (''max'', JInt 0),
                    (''mean'', JInt 0)]),
        (''labels'',
           if given label_path
           then JObject [(''label_path'', JString (the label_path)), (''missing'', JInt 0),
                         (''counts'', JObject [])]
           else JNull)]"

section \<open>\<^verbatim>\<open>retrain_trigger.py\<close>\<close>

text \<open>
  \<^verbatim>\<open>float(x)\<close> and \<^verbatim>\<open>int(x)\<close> on a value of the summary. An int converts to the
  nearest float, and raises OverflowError from \<open>2 ^ 1024 - 2 ^ 970\<close> on, where the nearest
  value is no longer finite.
\<close>

definition int_fits :: "int \<Rightarrow> bool" where
  "int_fits i = (\<bar>i\<bar> < 2 ^ 1024 - 2 ^ 970)"

fun py_float :: "'a pylib_scheme \<Rightarrow> json \<Rightarrow> error + pyfloat" where
  "py_float L JNull = Inl TypeError"
| "py_float L (JBool b) = Inr (Fin (if b then 1 else 0))"
| "py_float L (JInt i) = (if int_fits i then Inr (Fin (float_of_int i)) else Inl OverflowError)"
| "py_float L (JFloat x) = Inr x"
| "py_float L (JString s) = (case float_of_str L s of None \<Rightarrow> Inl ValueError | Some x \<Rightarrow> Inr x)"
| "py_float L (JArray xs) = Inl TypeError"
| "py_float L (JObject kvs) = Inl TypeError"

fun py_int :: "'a pylib_scheme \<Rightarrow> json \<Rightarrow> error + int" where
  "py_int L JNull = Inl TypeError"
| "py_int L (JBool b) = Inr (if b then 1 else 0)"
| "py_int L (JInt i) = Inr i"
| "py_int L (JFloat x) =
     (case x of
        Fin v \<Rightarrow> Inr (int_of_float v)
      | NegZero \<Rightarrow> Inr 0
      | PosInf \<Rightarrow> Inl OverflowError
      | NegInf \<Rightarrow> Inl OverflowError
      | NaN \<Rightarrow> Inl ValueError)"
| "py_int L (JString s) = (case int_of_str L s of None \<Rightarrow> Inl ValueError | Some i \<Rightarrow> Inr i)"
| "py_int L (JArray xs) = Inl TypeError"
| "py_int L (JObject kvs) = Inl TypeError"

text \<open>\<^verbatim>\<open>a < b\<close> on two floats: false when either is NaN.\<close>

fun float_less :: "pyfloat \<Rightarrow> pyfloat \<Rightarrow> bool" where
  "float_less NaN b = False"
| "float_less a NaN = False"
| "float_less a NegInf = False"
| "float_less NegInf b = True"
| "float_less PosInf b = False"
| "float_less a PosInf = True"
| "float_less (Fin x) (Fin y) = (x < y)"
| "float_less (Fin x) NegZero = (x < 0)"
| "float_less NegZero (Fin y) = (0 < y)"
| "float_less NegZero NegZero = False"

text \<open>
  The list \<^verbatim>\<open>need\<close> of the violated thresholds (lines 19 to 30), from the parsed
  summary \<^verbatim>\<open>r\<close>. A value without \<^verbatim>\<open>get\<close> raises AttributeError.
\<close>

fun decide :: "'a pylib_scheme \<Rightarrow> json \<Rightarrow> pyfloat \<Rightarrow> pyfloat \<Rightarrow> error + string list" where
  "decide L (JObject r) min_pass max_repair =
     (case py_float L (dict_get_default r ''passRate'' (JInt 0)) of
        Inl e \<Rightarrow> Inl e
      | Inr pass_rate \<Rightarrow>
     (case py_float L (dict_get_default r ''repairedRate'' (JInt 0)) of
        Inl e \<Rightarrow> Inl e
      | Inr repair_rate \<Rightarrow>
     (case py_or (dict_get r ''taxonomy'') (JObject []) of
        JObject taxonomy \<Rightarrow>
          (case py_int L (dict_get_default taxonomy ''SCHEMA'' (JInt 0)) of
             Inl e \<Rightarrow> Inl e
           | Inr schema_bad \<Rightarrow>
          (case py_int L (dict_get_default taxonomy ''JSON_PARSE'' (JInt 0)) of
             Inl e \<Rightarrow> Inl e
           | Inr parse_bad \<Rightarrow>
               Inr ((if float_less pass_rate min_pass
                     then [''passRate<'' @ py_str L (JFloat min_pass)] else [])
                  @ (if float_less max_repair repair_rate
                     then [''repairedRate>'' @ py_str L (JFloat max_repair)] else [])
                  @ (if schema_bad > 0 then [''SCHEMA>0''] else [])
                  @ (if parse_bad > 0 then [''JSON_PARSE>0''] else []))))
      | _ \<Rightarrow> Inl AttributeError)))"
| "decide L _ min_pass max_repair = Inl AttributeError"

text \<open>
  The record \<^verbatim>\<open>row\<close> that is harvested for a detail entry \<^verbatim>\<open>d\<close> (lines 46 to 62);
  \<open>n\<close> counts the rows written before it, and the clock is read once for each row.
\<close>

definition fallback_report :: json where
  "fallback_report =
     JObject
       [(''title'', JString ''Fallback report''),
        (''summary'', JString ''Schema-safe fallback because the previous attempt failed.''),
        (''bullets'', JArray [JString ''Add targeted training examples for this failure'',
                              JString ''Run evals after training'',
                              JString ''Keep tool grounding strict'']),
        (''actions'', JArray [JString ''Harvest failures into JSONL'',
                              JString ''Fine-tune with QLoRA SFT'',
                              JString ''Re-run edge-case suites'']),
        (''cautions'', JArray [JString ''Do not output non-JSON'',
                               JString ''Do not fabricate facts'']),
        (''citations'', JArray [])]"

definition message :: "string \<Rightarrow> string \<Rightarrow> json" where
  "message role content = JObject [(''role'', JString role), (''content'', JString content)]"

definition harvest_row :: "'a pylib_scheme \<Rightarrow> nat \<Rightarrow> (string \<times> json) list \<Rightarrow> json" where
  "harvest_row L n d =
     JObject
       [(''messages'', JArray
          [message ''system'' ''You MUST output valid JSON matching the report schema and nothing else.'',
           message ''user'' (''Produce a schema-valid report for test: '' @ py_str L (dict_get d ''name'')),
           message ''assistant'' (py_str L (py_or (dict_get d ''error'') (JString []))),
           message ''user'' ''Fix it. Return JSON only. Include all required keys, even if citations is empty.'',
           message ''assistant'' (dumps L False fallback_report)]),
        (''meta'', JObject
          [(''suite'', dict_get d ''suite''),
           (''name'', dict_get d ''name''),
           (''status'', dict_get d ''status''),
           (''ts'', JString (utcnow_iso L n @ ''Z''))])]"

text \<open>
  What \<^verbatim>\<open>for d in r.get("details", [])\<close> iterates over: the entries of a list, the
  characters of a str, the keys of a dict; anything else raises TypeError.
\<close>

fun iterate :: "json \<Rightarrow> error + json list" where
  "iterate (JArray ds) = Inr ds"
| "iterate (JString s) = Inr (map (\<lambda>c. JString [c]) s)"
| "iterate (JObject kvs) = Inr (map (\<lambda>(k, v). JString k) kvs)"
| "iterate _ = Inl TypeError"

text \<open>
  The loop over the detail entries, from the counter \<^verbatim>\<open>n\<close>: the text written to the
  harvest file, the counter at the end, and the exception that ended the loop, if any
  (\<^verbatim>\<open>d.get\<close> on an entry that is no dict, or the file's encoder on a row that holds a
  lone surrogate). What was written before an exception stays written: the \<^verbatim>\<open>with\<close>
  block closes the file.
\<close>

fun harvest_loop :: "'a pylib_scheme \<Rightarrow> nat \<Rightarrow> json list \<Rightarrow> string \<times> nat \<times> error option" where
  "harvest_loop L n [] = ([], n, None)"
| "harvest_loop L n (JObject d # rest) =
     (if dict_get d ''ok'' = JBool True then harvest_loop L n rest
      else (case utf8_encode L (dumps L False (harvest_row L n d) @ [CHR 0x0A]) of
              None \<Rightarrow> ([], n, Some UnicodeEncodeError)
            | Some b \<Rightarrow>
                (let (text, n', err) = harvest_loop L (n + 1) rest
                 in (dumps L False (harvest_row L n d) @ [CHR 0x0A] @ text, n', err))))"
| "harvest_loop L n (_ # rest) = ([], n, Some AttributeError)"

record retrain_args =
  results :: string
  out :: "string option"
  min_pass :: pyfloat
  max_repair :: pyfloat

record retrain_result =
  exit_code :: nat
  need :: "string list"
  harvested_failures :: "nat option"

text \<open>
  \<^verbatim>\<open>main\<close>. \<^verbatim>\<open>sys.exit(0)\<close> and \<^verbatim>\<open>sys.exit(1)\<close> are the two results; any other
  exception is an \<open>Inl\<close>. The harvest file is opened for appending before the detail
  entries are looked at.
\<close>

definition retrain_main ::
  "'a pylib_scheme \<Rightarrow> world \<Rightarrow> retrain_args \<Rightarrow> (error + retrain_result) \<times> world" where
  "retrain_main L w a =
     (case read_text w (results a) of
        Inl e \<Rightarrow> (Inl e, w)
      | Inr (text, w1) \<Rightarrow>
     (case json_loads L text of
        None \<Rightarrow> (Inl JSONDecodeError, w1)
      | Some r \<Rightarrow>
     (case decide L r (min_pass a) (max_repair a) of
        Inl e \<Rightarrow> (Inl e, w1)
      | Inr nd \<Rightarrow>
          if nd = [] then (Inr \<lparr>exit_code = 0, need = [], harvested_failures = None\<rparr>, w1)
          else if given (out a)
          then (case makedirs w1 (dirname (the (out a))) of
                  Inl e \<Rightarrow> (Inl e, w1)
                | Inr w2 \<Rightarrow>
                    (case iterate (case r of JObject kvs \<Rightarrow> dict_get_default kvs ''details'' (JArray [])
                                          | _ \<Rightarrow> JNull) of
                       Inl e \<Rightarrow> (Inl e, append_text w2 (the (out a)) [])
                     | Inr ds \<Rightarrow>
                         (case harvest_loop L 0 ds of
                            (text, n, Some e) \<Rightarrow> (Inl e, append_text w2 (the (out a)) text)
                          | (text, n, None) \<Rightarrow>
                              (Inr \<lparr>exit_code = 1, need = nd, harvested_failures = Some n\<rparr>,
                               append_text w2 (the (out a)) text))))
          else (Inr \<lparr>exit_code = 1, need = nd, harvested_failures = None\<rparr>, w1))))"

subsection \<open>The vocabulary of the statements about the retrain policy\<close>

text \<open>
  A summary is typed as the data model types it when \<^verbatim>\<open>passRate\<close> and
  \<^verbatim>\<open>repairedRate\<close> are numbers or absent (a float, or an int within the range of the
  floats), and \<^verbatim>\<open>taxonomy\<close> is absent, \<^verbatim>\<open>null\<close> or an object whose \<^verbatim>\<open>SCHEMA\<close> and
  \<^verbatim>\<open>JSON_PARSE\<close> entries are ints or absent.
\<close>

fun is_number :: "json \<Rightarrow> bool" where
  "is_number (JInt i) = int_fits i"
| "is_number (JFloat x) = True"
| "is_number _ = False"

fun is_int :: "json \<Rightarrow> bool" where
  "is_int (JInt i) = True"
| "is_int _ = False"

definition typed_summary :: "(string \<times> json) list \<Rightarrow> bool" where
  "typed_summary r =
     (is_number (dict_get_default r ''passRate'' (JInt 0))
      \<and> is_number (dict_get_default r ''repairedRate'' (JInt 0))
      \<and> (case dict_get r ''taxonomy'' of
            JNull \<Rightarrow> True
          | JObject t \<Rightarrow> is_int (dict_get_default t ''SCHEMA'' (JInt 0))
                        \<and> is_int (dict_get_default t ''JSON_PARSE'' (JInt 0))
          | _ \<Rightarrow> False))"

text \<open>
  The rate under a key of the summary and the count under a key of its taxonomy, each 0
  when it is missing. An int rate is read as the float it converts to.
\<close>

definition rate :: "(string \<times> json) list \<Rightarrow> string \<Rightarrow> pyfloat" where
  "rate r k =
     (case map_of r k of
        Some (JFloat x) \<Rightarrow> x
      | Some (JInt i) \<Rightarrow> Fin (float_of_int i)
      | _ \<Rightarrow> Fin 0)"

definition tax_count :: "(string \<times> json) list \<Rightarrow> string \<Rightarrow> int" where
  "tax_count r k =
     (case map_of r ''taxonomy'' of
        Some (JObject t) \<Rightarrow> (case map_of t k of Some (JInt i) \<Rightarrow> i | _ \<Rightarrow> 0)
      | _ \<Rightarrow> 0)"

text \<open>
  The detail entries that are harvested, the objects whose \<^verbatim>\<open>ok\<close> is not \<^verbatim>\<open>true\<close>,
  and the rows written for them, the \<open>i\<close>-th with the \<open>i\<close>-th reading of the clock.
\<close>

definition failing_entries :: "json list \<Rightarrow> (string \<times> json) list list" where
  "failing_entries ds =
     List.map_filter
       (\<lambda>e. case e of
              JObject d \<Rightarrow> (if dict_get d ''ok'' = JBool True then None else Some d)
            | _ \<Rightarrow> None) ds"

definition harvest_rows :: "'a pylib_scheme \<Rightarrow> nat \<Rightarrow> (string \<times> json) list list \<Rightarrow> json list" where
  "harvest_rows L n fs = map (\<lambda>(i, d). harvest_row L i d) (enumerate n fs)"

text \<open>A row that the harvest file can encode: one that holds no lone surrogate.\<close>

definition row_encodes :: "'a pylib_scheme \<Rightarrow> json \<Rightarrow> bool" where
  "row_encodes L row = (utf8_encode L (dumps L False row @ [CHR 0x0A]) \<noteq> None)"

fun is_object :: "json \<Rightarrow> bool" where
  "is_object (JObject d) = True"
| "is_object _ = False"

section \<open>A small library for evaluating the scripts\<close>

text \<open>
  Stand-ins for the library parameters, used where a script is evaluated on a concrete
  input. The character \<open>0xFF\<close> stands for the lone surrogate \<^verbatim>\<open>U+D800\<close>: a file holds
  it as the escape \<^verbatim>\<open>\ud800\<close>, which the parser reads, and the encoder refuses a text
  that holds it. The parser knows a finite list of documents (records in \<open>demo_lib\<close>,
  evaluation summaries in \<open>demo_eval_lib\<close>), each under the text that \<open>dumps\<close> writes
  for it, the surrogate escaped; the hash is the identity; the shuffle
  rotates the list by the seed; the \<open>n\<close>-th reading of the clock is \<open>n\<close> seconds after
  the first.
\<close>

definition demo_base :: pylib where
  "demo_base =
     \<lparr>json_loads = (\<lambda>s. None),
      float_repr = (\<lambda>x. ''0.5''),
      container_repr = (\<lambda>v. ''[]''),
      utf8_encode = (\<lambda>s. if CHR 0xFF \<in> set s then None else Some s),
      sha256_hex = (\<lambda>s. s),
      shuffle = (\<lambda>sd xs. rotate (nat sd) xs),
      float_of_str = (\<lambda>s. None),
      int_of_str = (\<lambda>s. None),
      utcnow_iso = (\<lambda>n. ''2024-01-01T00:00:0'' @ show_int (int n)),
      dumps_indent = (\<lambda>v. ''{}'')\<rparr>"

text \<open>
  An evaluation summary without \<^verbatim>\<open>passRate\<close>, with a positive \<^verbatim>\<open>SCHEMA\<close> count and
  three detail entries, of which the second passed; and a summary that violates nothing.
\<close>

definition demo_details :: "json list" where
  "demo_details =
     [JObject [(''ok'', JBool False), (''name'', JString ''t1''), (''suite'', JString ''s''),
               (''status'', JString ''fail''), (''error'', JString ''boom'')],
      JObject [(''ok'', JBool True), (''name'', JString ''t2'')],
      JObject [(''name'', JString ''t3'')]]"

definition demo_summary :: "(string \<times> json) list" where
  "demo_summary =
     [(''repairedRate'', JInt 0),
      (''taxonomy'', JObject [(''SCHEMA'', JInt 2)]),
      (''details'', JArray demo_details)]"

definition demo_ok_summary :: "(string \<times> json) list" where
  "demo_ok_summary =
     [(''passRate'', JInt 1), (''repairedRate'', JInt 0), (''taxonomy'', JObject [])]"

text \<open>
  A summary with three failing detail entries, of which the second has the lone surrogate
  as its error text.
\<close>

definition demo_t1 :: "(string \<times> json) list" where
  "demo_t1 = [(''ok'', JBool False), (''name'', JString ''t1''), (''error'', JString ''boom'')]"

definition demo_sur_details :: "json list" where
  "demo_sur_details =
     [JObject demo_t1,
      JObject [(''ok'', JBool False), (''name'', JString ''t2''), (''error'', JString [CHR 0xFF])],
      JObject [(''ok'', JBool False), (''name'', JString ''t3''), (''error'', JString ''bang'')]]"

definition demo_sur_summary :: "(string \<times> json) list" where
  "demo_sur_summary =
     [(''passRate'', JInt 0), (''details'', JArray demo_sur_details)]"

text \<open>One record that holds the lone surrogate, under two orders of its keys.\<close>

definition demo_sur :: json where
  "demo_sur = JObject [(''t'', JString [CHR 0xFF]), (''x'', JInt 1)]"

definition demo_sur_rev :: json where
  "demo_sur_rev = JObject [(''x'', JInt 1), (''t'', JString [CHR 0xFF])]"

definition demo_docs :: "json list" where
  "demo_docs =
     [JInt 1, JInt 2, JInt 3, demo_sur, demo_sur_rev,
      JObject [(''g'', JString ''a'')],
      JObject [(''g'', JString ''b'')],
      JObject [(''g'', JString ''c'')],
      JObject [(''g'', JString ''a''), (''x'', JInt 1)],
      JObject [(''x'', JInt 1), (''g'', JString ''a'')],
      JObject [(''x'', JInt 1)]]"

definition demo_text :: "json \<Rightarrow> string" where
  "demo_text v =
     concat (map (\<lambda>c. if c = CHR 0xFF then CHR 0x5C # ''ud800'' else [c]) (dumps demo_base False v))"

definition demo_lib :: pylib where
  "demo_lib = demo_base\<lparr>json_loads := (\<lambda>s. find (\<lambda>v. demo_text v = s) demo_docs)\<rparr>"

text \<open>The same library with a parser that knows the three evaluation summaries.\<close>

definition demo_eval_lib :: pylib where
  "demo_eval_lib =
     demo_base\<lparr>json_loads := (\<lambda>s. find (\<lambda>v. demo_text v = s)
       [JObject demo_ok_summary, JObject demo_summary, JObject demo_sur_summary])\<rparr>"

text \<open>The line \<^verbatim>\<open>{"g": "..."}\<close>, a record of the group named.\<close>

definition demo_line :: "string \<Rightarrow> string" where
  "demo_line g = dumps demo_base False (JObject [(''g'', JString g)])"

definition demo_args :: "rat \<Rightarrow> rat \<Rightarrow> rat \<Rightarrow> gsplit_args" where
  "demo_args tr va te =
     \<lparr>inp = ''in.jsonl'', outdir = ''out'', seed = 0, train = tr, val = va, test = te,
      group_key = ''g''\<rparr>"




definition demo_world :: world where
  "demo_world =
     \<lparr>files = [''in.jsonl'' \<mapsto> ''junk'',
               ''results.json'' \<mapsto> dumps demo_base False (JObject demo_summary),
               ''results_ok.json'' \<mapsto> dumps demo_base False (JObject demo_ok_summary),
               ''results_sur.json'' \<mapsto> demo_text (JObject demo_sur_summary),
               ''failures.jsonl'' \<mapsto> ''old'' @ [CHR 0x0A],
               ''data/failures.jsonl'' \<mapsto> ''old'' @ [CHR 0x0A]],
      io_log = []\<rparr>"

definition demo_retrain_args :: "string \<Rightarrow> string option \<Rightarrow> retrain_args" where
  "demo_retrain_args res dest =
     \<lparr>results = res, out = dest, min_pass = Fin (1 / 2), max_repair = Fin (1 / 2)\<rparr>"

text \<open>Seven input lines: two of them are skipped, the last has no group key.\<close>

definition demo_lines :: "string list" where
  "demo_lines =
     [demo_line ''a'', demo_line ''b'' @ ''  '', ''junk'', '' '',
      dumps demo_base False (JObject [(''g'', JString ''a''), (''x'', JInt 1)]),
      demo_line ''c'',
      dumps demo_base False (JObject [(''x'', JInt 1)])]"

text \<open>
  The invariant of \<^verbatim>\<open>groups\<close>: no group is empty, and every line stands under its own
  group key (\<open>G\<close> gives the group of a line).
\<close>

definition good_groups :: "(string \<Rightarrow> string) \<Rightarrow> (string \<times> string list) list \<Rightarrow> bool" where
  "good_groups G g = list_all (\<lambda>(k, ls). ls \<noteq> [] \<and> list_all (\<lambda>l. G l = k) ls) g"


chapter \<open>Properties\<close>

section \<open>Evaluation of the string functions\<close>

lemma strip_Nil: "strip [] = []"
  by (simp add: strip_def lstrip_def rstrip_def)

lemma lstrip_nonspace: "\<not> py_isspace c \<Longrightarrow> lstrip (c # s) = c # s"
  by (simp add: lstrip_def)

lemma rstrip_ne: "\<not> py_isspace c \<Longrightarrow> rstrip (c # s) \<noteq> []"
  by (simp add: rstrip_def dropWhile_append)

lemma strip_nonspace_ne: "\<not> py_isspace c \<Longrightarrow> strip (c # s) \<noteq> []"
  by (simp add: strip_def lstrip_nonspace rstrip_ne)

text \<open>
  The escapes by comparison of characters, for evaluation: a control character is one
  whose three high bits are 0.
\<close>

lemma control_char: "(of_char c :: nat) < 32 \<longleftrightarrow> \<not> digit5 c \<and> \<not> digit6 c \<and> \<not> digit7 c"
proof (cases c)
  case (Char b0 b1 b2 b3 b4 b5 b6 b7)
  have le: "(of_bool b0 + 2 * (of_bool b1 + 2 * (of_bool b2 + 2 * (of_bool b3 + 2 * of_bool b4)))) < (32::nat)"
    by (cases b0; cases b1; cases b2; cases b3; cases b4) simp_all
  show ?thesis
    unfolding Char using le by (cases b5; cases b6; cases b7) (simp_all add: of_char_Char horner_sum_simps)
qed

lemma escape_char_code [code]:
  "escape_char c =
     (if c = CHR 0x5C then [CHR 0x5C, CHR 0x5C]
      else if c = CHR 0x22 then [CHR 0x5C, CHR 0x22]
      else if c = CHR 0x08 then [CHR 0x5C, CHR ''b'']
      else if c = CHR 0x0C then [CHR 0x5C, CHR ''f'']
      else if c = CHR 0x0A then [CHR 0x5C, CHR ''n'']
      else if c = CHR 0x0D then [CHR 0x5C, CHR ''r'']
      else if c = CHR 0x09 then [CHR 0x5C, CHR ''t'']
      else if \<not> digit5 c \<and> \<not> digit6 c \<and> \<not> digit7 c
      then [CHR 0x5C, CHR ''u'', CHR ''0'', CHR ''0'', hex_char (of_char c div 16), hex_char (of_char c mod 16)]
      else [c])"
proof -
  have e: "(of_char c :: nat) = 92 \<longleftrightarrow> c = CHR 0x5C" "(of_char c :: nat) = 34 \<longleftrightarrow> c = CHR 0x22"
    "(of_char c :: nat) = 8 \<longleftrightarrow> c = CHR 0x08" "(of_char c :: nat) = 12 \<longleftrightarrow> c = CHR 0x0C"
    "(of_char c :: nat) = 10 \<longleftrightarrow> c = CHR 0x0A" "(of_char c :: nat) = 13 \<longleftrightarrow> c = CHR 0x0D"
    "(of_char c :: nat) = 9 \<longleftrightarrow> c = CHR 0x09"
    using of_char_eq_iff [of c "CHR 0x5C", where ?'a = nat] of_char_eq_iff [of c "CHR 0x22", where ?'a = nat]
      of_char_eq_iff [of c "CHR 0x08", where ?'a = nat] of_char_eq_iff [of c "CHR 0x0C", where ?'a = nat]
      of_char_eq_iff [of c "CHR 0x0A", where ?'a = nat] of_char_eq_iff [of c "CHR 0x0D", where ?'a = nat]
      of_char_eq_iff [of c "CHR 0x09", where ?'a = nat]
    by simp_all
  show ?thesis
    unfolding escape_char_def Let_def e control_char ..
qed

section \<open>The conversational validator\<close>

lemma check_msgs_user_only:
  "list_all user_turn ms \<Longrightarrow> \<exists>r. check_msgs i ms = Inr r"
proof (induction ms arbitrary: i)
  case Nil
  then show ?case by simp
next
  case (Cons m ms)
  then obtain f where m: "m = JObject f" and r: "dict_get f ''role'' = JString ''user''"
    by (cases m) (auto simp: user_turn_def)
  from Cons obtain r' where "check_msgs (i + 1) ms = Inr r'"
    by fastforce
  with m r show ?case by simp
qed

lemma user_only_no_assistant:
  "list_all user_turn ms \<Longrightarrow> \<not> list_ex (has_role ''assistant'') ms"
proof (induction ms)
  case Nil
  then show ?case by simp
next
  case (Cons m ms)
  then show ?case by (cases m) (auto simp: user_turn_def)
qed

lemma user_only_rejected:
  assumes "dict_get obj ''messages'' = JArray ms" and "list_all user_turn ms"
  shows "\<exists>reason. validate_chat (JObject obj) = Inr (False, Some reason)"
proof -
  obtain r where r: "check_msgs 0 ms = Inr r"
    using check_msgs_user_only [OF assms(2)] by blast
  show ?thesis
    using assms(1) r user_only_no_assistant [OF assms(2)]
    by (cases r) (auto simp: Let_def)
qed

lemmas chat_eval =
  chat_record_def dict_get_def strip_def lstrip_def rstrip_def py_isspace_def
  show_int_def digits.simps digit_char_def

text \<open>
  Claim C5. \<open>validate_chat\<close> accepts the record whose messages are a user turn "hi" and an
  assistant turn "ok". It rejects that record when the first content is the empty string,
  and when the second is. It rejects every record whose \<^verbatim>\<open>messages\<close> is a list of user
  turns only, whatever their contents and however many they are: the result is never an
  exception and never an acceptance.
\<close>

theorem validate_chat_examples:
  "validate_chat (chat_record ''hi'' ''ok'') = Inr (True, None)
   \<and> validate_chat (chat_record [] ''ok'') = Inr (False, Some ''message[0] missing content'')
   \<and> validate_chat (chat_record ''hi'' []) = Inr (False, Some ''message[1] missing content'')
   \<and> (\<forall>obj ms. dict_get obj ''messages'' = JArray ms \<and> list_all user_turn ms
        \<longrightarrow> (\<exists>reason. validate_chat (JObject obj) = Inr (False, Some reason)))"
proof (intro conjI allI impI)
  show "validate_chat (chat_record ''hi'' ''ok'') = Inr (True, None)"
    by (simp add: chat_eval)
  show "validate_chat (chat_record [] ''ok'') = Inr (False, Some ''message[0] missing content'')"
    by (simp add: chat_eval)
  show "validate_chat (chat_record ''hi'' []) = Inr (False, Some ''message[1] missing content'')"
    by (simp add: chat_eval)
next
  fix obj ms
  assume "dict_get obj ''messages'' = JArray ms \<and> list_all user_turn ms"
  then show "\<exists>reason. validate_chat (JObject obj) = Inr (False, Some reason)"
    using user_only_rejected by blast
qed

theorem validate_chat_examples_witness:
  "dict_get [(''messages'', JArray
        [JObject [(''role'', JString ''user''), (''content'', JString ''hi'')],
         JObject [(''role'', JString ''user''), (''content'', JString ''again'')]])] ''messages''
     = JArray
        [JObject [(''role'', JString ''user''), (''content'', JString ''hi'')],
         JObject [(''role'', JString ''user''), (''content'', JString ''again'')]]
   \<and> list_all user_turn
        [JObject [(''role'', JString ''user''), (''content'', JString ''hi'')],
         JObject [(''role'', JString ''user''), (''content'', JString ''again'')]]
   \<and> validate_chat
     (JObject [(''messages'', JArray
        [JObject [(''role'', JString ''user''), (''content'', JString ''hi'')],
         JObject [(''role'', JString ''user''), (''content'', JString ''again'')]])])
     = Inr (False, Some ''need at least one user and one assistant message'')"
proof -
  let ?ms = "[JObject [(''role'', JString ''user''), (''content'', JString ''hi'')],
              JObject [(''role'', JString ''user''), (''content'', JString ''again'')]]"
  let ?obj = "[(''messages'', JArray ?ms)]"
  have h: "dict_get ?obj ''messages'' = JArray ?ms \<and> list_all user_turn ?ms"
    by (simp add: dict_get_def user_turn_def)
  from validate_chat_examples have
    "\<exists>reason. validate_chat (JObject ?obj) = Inr (False, Some reason)"
    using h by blast
  then have "validate_chat (JObject ?obj)
     = Inr (False, Some ''need at least one user and one assistant message'')"
    by (simp add: chat_eval)
  with h show ?thesis
    by blast
qed

section \<open>Floats and slices\<close>

lemma round_half_even_nonneg: "0 \<le> x \<Longrightarrow> 0 \<le> round_half_even x"
  by (auto simp: round_half_even_def Let_def)

lemma rnd_nonneg: "0 \<le> x \<Longrightarrow> 0 \<le> rnd x"
proof (cases "x = 0")
  case True
  then show ?thesis by (simp add: rnd_def)
next
  case False
  assume "0 \<le> x"
  with False have pos: "0 < x" by simp
  define e where "e = max (binade \<bar>x\<bar> - 52) (- 1074)"
  have "0 \<le> \<bar>x\<bar> / 2 powi e" by simp
  then have "0 \<le> round_half_even (\<bar>x\<bar> / 2 powi e)"
    by (rule round_half_even_nonneg)
  then have "0 \<le> (of_int (round_half_even (\<bar>x\<bar> / 2 powi e)) :: rat) * 2 powi e"
    by simp
  with pos False show ?thesis
    by (simp add: rnd_def Let_def e_def)
qed

lemma n_of_nonneg: "0 \<le> fr \<Longrightarrow> 0 \<le> n_of n fr"
proof -
  assume fr: "0 \<le> fr"
  have "0 \<le> float_of_int (int n)"
    by (simp add: float_of_int_def rnd_nonneg)
  with fr have "0 \<le> fmul (float_of_int (int n)) fr"
    by (simp add: fmul_def rnd_nonneg)
  then show ?thesis
    by (simp add: n_of_def int_of_float_def)
qed

lemma n_of_floor: "0 \<le> fr \<Longrightarrow> n_of n fr = \<lfloor>fmul (float_of_int (int n)) fr\<rfloor>"
proof -
  assume fr: "0 \<le> fr"
  have "0 \<le> float_of_int (int n)"
    by (simp add: float_of_int_def rnd_nonneg)
  with fr have "0 \<le> fmul (float_of_int (int n)) fr"
    by (simp add: fmul_def rnd_nonneg)
  then show ?thesis
    by (simp add: n_of_def int_of_float_def)
qed

lemma take_min_length: "take (min (length zs) n) zs = take n zs"
  by (cases "n \<le> length zs") (simp_all add: min_def)

lemma slice_prefix: "0 \<le> a \<Longrightarrow> slice xs None (Some a) = take (nat a) xs"
  by (simp add: slice_def clip_index_def take_min_length)

lemma slice_suffix: "0 \<le> a \<Longrightarrow> slice xs (Some a) None = drop (nat a) xs"
  by (cases "nat a \<le> length xs") (simp_all add: slice_def clip_index_def min_def)

lemma slice_middle:
  assumes "0 \<le> a" "0 \<le> b"
  shows "slice xs (Some a) (Some (a + b)) = take (nat b) (drop (nat a) xs)"
proof -
  have ab: "nat (a + b) = nat a + nat b"
    using assms by (simp add: nat_add_distrib)
  have "take (min (length xs) (nat a + nat b) - min (length xs) (nat a)) (drop (min (length xs) (nat a)) xs)
        = take (nat b) (drop (nat a) xs)"
  proof (cases "nat a \<le> length xs")
    case True
    then have m: "min (length xs) (nat a) = nat a"
      by simp
    have "min (length xs) (nat a + nat b) - nat a = min (length (drop (nat a) xs)) (nat b)"
      using True by (simp only: length_drop) arith
    then show ?thesis
      by (simp only: m take_min_length)
  next
    case False
    then show ?thesis by simp
  qed
  then show ?thesis
    using assms by (simp add: slice_def clip_index_def ab)
qed

lemma allocate_nonneg:
  assumes "0 \<le> tr" "0 \<le> va"
  shows "allocate tr va ks =
     (take (nat (n_of (length ks) tr)) ks,
      take (nat (n_of (length ks) va)) (drop (nat (n_of (length ks) tr)) ks),
      drop (nat (n_of (length ks) tr) + nat (n_of (length ks) va)) ks)"
proof -
  have a: "0 \<le> n_of (length ks) tr" and b: "0 \<le> n_of (length ks) va"
    using assms by (simp_all add: n_of_nonneg)
  then have c: "0 \<le> n_of (length ks) tr + n_of (length ks) va" by simp
  show ?thesis
    unfolding allocate_def Let_def
    using a b
    by (simp add: slice_prefix [OF a] slice_middle [OF a b] slice_suffix [OF c] nat_add_distrib)
qed

section \<open>The reading loop of the group-aware splitter\<close>

lemma kept_lines_Cons:
  "kept_lines L (raw # lines) =
     (if strip raw \<noteq> [] \<and> json_loads L (strip raw) \<noteq> None
      then strip raw # kept_lines L lines else kept_lines L lines)"
  by (simp add: kept_lines_def)

lemma group_step_cases:
  "group_step L key st raw =
     (if strip raw \<noteq> [] \<and> json_loads L (strip raw) \<noteq> None
      then (groups_append (fst st) (line_group L key (strip raw)) (strip raw), snd st + 1)
      else st)"
  by (auto simp: group_step_def line_group_def Let_def)

lemma group_step_kept:
  "foldl (group_step L key) st lines =
     (foldl (\<lambda>g l. groups_append g (line_group L key l) l) (fst st) (kept_lines L lines),
      snd st + length (kept_lines L lines))"
proof (induction lines arbitrary: st)
  case Nil
  then show ?case by (simp add: kept_lines_def)
next
  case (Cons raw lines)
  show ?case
    by (simp only: foldl_Cons Cons.IH kept_lines_Cons group_step_cases [of L key st raw])
       (simp split: if_splits)
qed

lemma keys_groups_append:
  "map fst (groups_append g k l) = (if k \<in> set (map fst g) then map fst g else map fst g @ [k])"
  by (induction g k l rule: groups_append.induct) auto

lemma distinct_groups_append:
  "distinct (map fst g) \<Longrightarrow> distinct (map fst (groups_append g k l))"
  by (simp add: keys_groups_append)

lemma mset_groups_append:
  "mset (concat (map snd (groups_append g k l))) = mset (concat (map snd g)) + {#l#}"
  by (induction g k l rule: groups_append.induct) auto

lemma good_groups_append:
  "good_groups G g \<Longrightarrow> good_groups G (groups_append g (G l) l)"
  by (induction g "G l" l rule: groups_append.induct) (auto simp: good_groups_def list_all_iff)

lemma fold_groups_invariant:
  assumes "distinct (map fst g0)" "good_groups G g0"
  shows "distinct (map fst (foldl (\<lambda>g l. groups_append g (G l) l) g0 K))
       \<and> good_groups G (foldl (\<lambda>g l. groups_append g (G l) l) g0 K)
       \<and> mset (concat (map snd (foldl (\<lambda>g l. groups_append g (G l) l) g0 K)))
           = mset (concat (map snd g0)) + mset K"
  using assms
proof (induction K arbitrary: g0)
  case Nil
  then show ?case by simp
next
  case (Cons l K)
  have d: "distinct (map fst (groups_append g0 (G l) l))"
    using Cons.prems(1) by (rule distinct_groups_append)
  have g: "good_groups G (groups_append g0 (G l) l)"
    using Cons.prems(2) by (rule good_groups_append)
  from Cons.IH [OF d g] show ?case
    by (simp add: mset_groups_append)
qed

lemma read_groups_invariant:
  "distinct (map fst (fst (read_groups L key lines)))
   \<and> good_groups (line_group L key) (fst (read_groups L key lines))
   \<and> mset (concat (map snd (fst (read_groups L key lines)))) = mset (kept_lines L lines)"
  using fold_groups_invariant [of "[]" "line_group L key" "kept_lines L lines"]
  by (simp add: read_groups_def group_step_kept good_groups_def)

lemma mset_flatten: "mset (flatten g ks) = (\<Sum>k\<in>#mset ks. mset (case map_of g k of None \<Rightarrow> [] | Some ls \<Rightarrow> ls))"
  by (induction ks) (simp_all add: flatten_def)

lemma flatten_all_keys:
  assumes d: "distinct (map fst g)"
  shows "flatten g (map fst g) = concat (map snd g)"
proof -
  have "(case map_of g (fst x) of None \<Rightarrow> [] | Some ls \<Rightarrow> ls) = snd x" if "x \<in> set g" for x
  proof -
    from that have "(fst x, snd x) \<in> set g"
      by simp
    then have "map_of g (fst x) = Some (snd x)"
      using d by (simp only: map_of_eq_Some_iff)
    then show ?thesis by simp
  qed
  then have "map (\<lambda>k. case map_of g k of None \<Rightarrow> [] | Some ls \<Rightarrow> ls) (map fst g) = map snd g"
    by simp
  then show ?thesis
    by (simp only: flatten_def)
qed

lemma mset_flatten_perm:
  assumes "distinct (map fst g)" "mset ks = mset (map fst g)"
  shows "mset (flatten g ks) = mset (concat (map snd g))"
proof -
  have "mset (flatten g ks) = mset (flatten g (map fst g))"
    using assms(2) by (simp only: mset_flatten)
  then show ?thesis
    using assms(1) by (simp add: flatten_all_keys)
qed

lemma groups_of_flatten:
  assumes "distinct (map fst g)" "good_groups G g" "set ks \<subseteq> set (map fst g)"
  shows "G ` set (flatten g ks) = set ks"
proof -
  have each: "G ` set (case map_of g k of None \<Rightarrow> [] | Some ls \<Rightarrow> ls) = {k}" if "k \<in> set ks" for k
  proof -
    from that assms(3) obtain ls where "(k, ls) \<in> set g" by auto
    then have m: "map_of g k = Some ls" using assms(1) by simp
    from \<open>(k, ls) \<in> set g\<close> assms(2) have "ls \<noteq> []" "\<forall>l\<in>set ls. G l = k"
      by (auto simp: good_groups_def list_all_iff)
    then have "G ` set ls = {k}" by (cases ls) auto
    with m show ?thesis by simp
  qed
  have "G ` set (flatten g ks) = (\<Union>k\<in>set ks. G ` set (case map_of g k of None \<Rightarrow> [] | Some ls \<Rightarrow> ls))"
    by (auto simp: flatten_def)
  also have "\<dots> = (\<Union>k\<in>set ks. {k})" using each by simp
  finally show ?thesis by simp
qed

lemma flatten_append: "flatten g (xs @ ys) = flatten g xs @ flatten g ys"
  by (simp add: flatten_def)

section \<open>The partitions of the group-aware splitter\<close>

lemma group_split_partition_core:
  assumes perm: "\<forall>xs. mset (shuffle L (seed a) xs) = mset xs"
    and tr: "0 \<le> train a" and va: "0 \<le> val a"
    and res: "group_split L a lines = (trn, vl, tst)"
  shows "line_group L (group_key a) ` set trn \<inter> line_group L (group_key a) ` set vl = {}
       \<and> line_group L (group_key a) ` set trn \<inter> line_group L (group_key a) ` set tst = {}
       \<and> line_group L (group_key a) ` set vl \<inter> line_group L (group_key a) ` set tst = {}
       \<and> line_group L (group_key a) ` set trn \<union> line_group L (group_key a) ` set vl
            \<union> line_group L (group_key a) ` set tst
          = line_group L (group_key a) ` set (kept_lines L lines)
       \<and> mset (trn @ vl @ tst) = mset (kept_lines L lines)"
proof -
  define G where "G = line_group L (group_key a)"
  define g where "g = fst (read_groups L (group_key a) lines)"
  define ks where "ks = shuffled_keys L a lines"
  define nt where "nt = nat (n_of (length ks) (train a))"
  define nv where "nv = nat (n_of (length ks) (val a))"
  define tk where "tk = take nt ks"
  define vk where "vk = take nv (drop nt ks)"
  define sk where "sk = drop (nt + nv) ks"
  have inv: "distinct (map fst g)" "good_groups G g"
    "mset (concat (map snd g)) = mset (kept_lines L lines)"
    using read_groups_invariant [of L "group_key a" lines] by (simp_all add: g_def G_def)
  have ks: "mset ks = mset (map fst g)"
    using perm by (simp add: ks_def shuffled_keys_def g_def)
  then have dks: "distinct ks" and sks: "set ks = set (map fst g)"
    using inv(1) by (metis mset_eq_imp_distinct_iff, metis set_mset_mset)
  have cat: "tk @ vk @ sk = ks"
    unfolding tk_def vk_def sk_def
    by (metis append_take_drop_id drop_drop add.commute)
  have alloc: "split_keys L a lines = (tk, vk, sk)"
    using allocate_nonneg [OF tr va, of ks]
    by (simp add: split_keys_def ks_def tk_def vk_def sk_def nt_def nv_def)
  have out: "trn = flatten g tk" "vl = flatten g vk" "tst = flatten g sk"
    using res alloc by (simp_all add: group_split_def g_def Let_def)
  have sub: "set tk \<subseteq> set (map fst g)" "set vk \<subseteq> set (map fst g)" "set sk \<subseteq> set (map fst g)"
    using cat sks by auto
  have img: "G ` set trn = set tk" "G ` set vl = set vk" "G ` set tst = set sk"
    using groups_of_flatten [OF inv(1) inv(2)] sub out by simp_all
  have dis: "distinct (tk @ vk @ sk)"
    using cat dks by simp
  have keys: "set (map fst g) = G ` set (kept_lines L lines)"
  proof -
    have "G ` set (flatten g (map fst g)) = set (map fst g)"
      using groups_of_flatten [OF inv(1) inv(2), of "map fst g"] by simp
    moreover have "set (flatten g (map fst g)) = set (kept_lines L lines)"
      using inv(1) inv(3) by (metis flatten_all_keys set_mset_mset)
    ultimately show ?thesis by simp
  qed
  have all: "mset (trn @ vl @ tst) = mset (kept_lines L lines)"
  proof -
    have "trn @ vl @ tst = flatten g ks"
      using out cat by (metis flatten_append)
    then show ?thesis
      using mset_flatten_perm [OF inv(1) ks] inv(3) by simp
  qed
  have "set tk \<union> set vk \<union> set sk = set ks"
    using cat by (metis set_append Un_assoc)
  with dis img keys sks all show ?thesis
    unfolding G_def [symmetric] by auto
qed

lemma same_group_same_part:
  assumes "G ` X \<inter> G ` Y = {}" and "G ` X \<inter> G ` Z = {}"
    and "l \<in> X" and "l' \<in> X \<union> Y \<union> Z" and "G l = G l'"
  shows "l' \<in> X"
proof (rule ccontr)
  assume "l' \<notin> X"
  with assms(4) have "l' \<in> Y \<or> l' \<in> Z" by blast
  then have "G l' \<in> G ` Y \<or> G l' \<in> G ` Z" by blast
  moreover have "G l' \<in> G ` X" using assms(3,5) by (metis imageI)
  ultimately show False using assms(1,2) by blast
qed

text \<open>
  Claim C1, as amended. Let the shuffle return a permutation of its argument, and let the
  train and validation fractions be non-negative. Then the group keys of the lines of the
  three partitions are pairwise disjoint; together they are the group keys of all the
  lines that the reading loop keeps (the sentinel \<^verbatim>\<open>__MISSING__\<close> among them, by
  \<open>group_of\<close>); the partitions hold exactly the kept lines, each as often as the input
  does; and two kept lines of one group are in the same partitions. (The three lists
  are what \<open>group_split_main\<close> writes to the three output files.)
\<close>

theorem group_split_partition:
  assumes "\<forall>xs. mset (shuffle L (seed a) xs) = mset xs"
    and "0 \<le> train a" and "0 \<le> val a"
    and "group_split L a lines = (trn, vl, tst)"
  shows "line_group L (group_key a) ` set trn \<inter> line_group L (group_key a) ` set vl = {}
       \<and> line_group L (group_key a) ` set trn \<inter> line_group L (group_key a) ` set tst = {}
       \<and> line_group L (group_key a) ` set vl \<inter> line_group L (group_key a) ` set tst = {}
       \<and> line_group L (group_key a) ` set trn \<union> line_group L (group_key a) ` set vl
            \<union> line_group L (group_key a) ` set tst
          = line_group L (group_key a) ` set (kept_lines L lines)
       \<and> mset (trn @ vl @ tst) = mset (kept_lines L lines)
       \<and> (\<forall>l \<in> set (kept_lines L lines). \<forall>l' \<in> set (kept_lines L lines).
            line_group L (group_key a) l = line_group L (group_key a) l'
            \<longrightarrow> (l \<in> set trn \<longleftrightarrow> l' \<in> set trn) \<and> (l \<in> set vl \<longleftrightarrow> l' \<in> set vl)
                \<and> (l \<in> set tst \<longleftrightarrow> l' \<in> set tst))"
proof -
  define G where "G = line_group L (group_key a)"
  define K where "K = kept_lines L lines"
  have core: "G ` set trn \<inter> G ` set vl = {}" "G ` set trn \<inter> G ` set tst = {}"
    "G ` set vl \<inter> G ` set tst = {}"
    "G ` set trn \<union> G ` set vl \<union> G ` set tst = G ` set K"
    "mset (trn @ vl @ tst) = mset K"
    using group_split_partition_core [OF assms] by (simp_all add: G_def K_def)
  from core(5) have cover: "set K = set trn \<union> set vl \<union> set tst"
    by (metis set_mset_mset set_append Un_assoc)
  have XY: "G ` set vl \<inter> G ` set trn = {}" and XZ: "G ` set tst \<inter> G ` set trn = {}"
    and YZ: "G ` set tst \<inter> G ` set vl = {}"
    using core(1,2,3) by blast+
  have same: "(l \<in> set trn \<longleftrightarrow> l' \<in> set trn) \<and> (l \<in> set vl \<longleftrightarrow> l' \<in> set vl)
      \<and> (l \<in> set tst \<longleftrightarrow> l' \<in> set tst)"
    if l: "l \<in> set K" and l': "l' \<in> set K" and eq: "G l = G l'" for l l'
  proof -
    have m: "l \<in> set trn \<union> set vl \<union> set tst" "l' \<in> set trn \<union> set vl \<union> set tst"
      using l l' cover by simp_all
    have m2: "l \<in> set vl \<union> set trn \<union> set tst" "l' \<in> set vl \<union> set trn \<union> set tst"
      "l \<in> set tst \<union> set trn \<union> set vl" "l' \<in> set tst \<union> set trn \<union> set vl"
      using m by blast+
    have "l \<in> set trn \<Longrightarrow> l' \<in> set trn"
      using same_group_same_part [OF core(1) core(2) _ m(2) eq] .
    moreover have "l' \<in> set trn \<Longrightarrow> l \<in> set trn"
      using same_group_same_part [OF core(1) core(2) _ m(1) eq [symmetric]] .
    moreover have "l \<in> set vl \<Longrightarrow> l' \<in> set vl"
      using same_group_same_part [OF XY core(3) _ m2(2) eq] .
    moreover have "l' \<in> set vl \<Longrightarrow> l \<in> set vl"
      using same_group_same_part [OF XY core(3) _ m2(1) eq [symmetric]] .
    moreover have "l \<in> set tst \<Longrightarrow> l' \<in> set tst"
      using same_group_same_part [OF XZ YZ _ m2(4) eq] .
    moreover have "l' \<in> set tst \<Longrightarrow> l \<in> set tst"
      using same_group_same_part [OF XZ YZ _ m2(3) eq [symmetric]] .
    ultimately show ?thesis by blast
  qed
  have part: "\<forall>l \<in> set K. \<forall>l' \<in> set K. G l = G l'
      \<longrightarrow> (l \<in> set trn \<longleftrightarrow> l' \<in> set trn) \<and> (l \<in> set vl \<longleftrightarrow> l' \<in> set vl)
          \<and> (l \<in> set tst \<longleftrightarrow> l' \<in> set tst)"
    using same by blast
  from core part show ?thesis
    unfolding G_def K_def by - (intro conjI; assumption)
qed

lemma mset_rotate1: "mset (rotate1 xs) = mset xs"
  by (cases xs) simp_all

lemma mset_rotate: "mset (rotate n xs) = mset xs"
  by (induction n) (simp_all add: mset_rotate1)

lemma demo_shuffle_perm: "\<forall>xs. mset (shuffle demo_lib sd xs) = mset xs"
  by (simp add: demo_lib_def demo_base_def mset_rotate)


theorem group_split_partition_witness:
  "(\<forall>xs. mset (shuffle demo_lib 1 xs) = mset xs)
   \<and> (0::rat) \<le> 1 / 2 \<and> (0::rat) \<le> 1 / 4
   \<and> (let (trn, vl, tst) = group_split demo_lib ((demo_args (1 / 2) (1 / 4) (1 / 4))\<lparr>seed := 1\<rparr>) demo_lines
      in map (line_group demo_lib ''g'') trn = [''b'', ''c'']
       \<and> map (line_group demo_lib ''g'') vl = [''__MISSING__'']
       \<and> map (line_group demo_lib ''g'') tst = [''a'', ''a'']
       \<and> line_group demo_lib ''g'' ` set trn \<inter> line_group demo_lib ''g'' ` set vl = {}
       \<and> line_group demo_lib ''g'' ` set trn \<inter> line_group demo_lib ''g'' ` set tst = {}
       \<and> line_group demo_lib ''g'' ` set vl \<inter> line_group demo_lib ''g'' ` set tst = {}
       \<and> mset (trn @ vl @ tst) = mset (kept_lines demo_lib demo_lines))"
proof -
  let ?a = "(demo_args (1 / 2) (1 / 4) (1 / 4))\<lparr>seed := 1\<rparr>"
  obtain trn vl tst where r: "group_split demo_lib ?a demo_lines = (trn, vl, tst)"
    by (cases "group_split demo_lib ?a demo_lines") auto
  have h1: "\<forall>xs. mset (shuffle demo_lib (seed ?a) xs) = mset xs"
    by (rule demo_shuffle_perm)
  have h2: "0 \<le> train ?a" and h3: "0 \<le> val ?a"
    by (simp_all add: demo_args_def)
  have keys: "map (line_group demo_lib ''g'') (fst (group_split demo_lib ?a demo_lines)) = [''b'', ''c'']"
    "map (line_group demo_lib ''g'') (fst (snd (group_split demo_lib ?a demo_lines))) = [''__MISSING__'']"
    "map (line_group demo_lib ''g'') (snd (snd (group_split demo_lib ?a demo_lines))) = [''a'', ''a'']"
    by code_simp+
  have gk: "group_key ?a = ''g''"
    by (simp add: demo_args_def)
  from group_split_partition [OF h1 h2 h3 r] keys h1 show ?thesis
    unfolding r gk by (simp add: demo_args_def)
qed

text \<open>
  The claim as stated fails for a fraction triple with a negative member. The fractions
  \<open>1/2\<close>, \<open>-1/2\<close>, \<open>1\<close> pass the test on their sum; with two groups \<^verbatim>\<open>n_train\<close> is
  \<open>1\<close> and \<^verbatim>\<open>n_val\<close> is \<open>-1\<close>, so the slices are \<^verbatim>\<open>keys[:1]\<close>, \<^verbatim>\<open>keys[1:0]\<close> and
  \<^verbatim>\<open>keys[0:]\<close>: the first group is written to both the train and the test partition.
\<close>

theorem group_split_overlap_counterexample:
  "\<not> bad_fractions (1 / 2) (- 1 / 2) 1
   \<and> group_split demo_lib (demo_args (1 / 2) (- 1 / 2) 1) [demo_line ''a'', demo_line ''b'']
       = ([demo_line ''a''], [], [demo_line ''a'', demo_line ''b''])
   \<and> line_group demo_lib ''g'' (demo_line ''a'') = ''a''
   \<and> line_group demo_lib ''g'' ` set [demo_line ''a'']
       \<inter> line_group demo_lib ''g'' ` set [demo_line ''a'', demo_line ''b''] \<noteq> {}"
  by code_simp

section \<open>The allocation of the shuffled keys\<close>

text \<open>
  Claim C2, as amended. Let the train and validation fractions be non-negative, let
  \<open>ks\<close> be the shuffled list of the distinct group keys, and let \<open>n_train\<close> and \<open>n_val\<close>
  be the floors of the float products of the number of groups with the train fraction
  and with the validation fraction. Then the train keys are the first \<open>n_train\<close> keys of
  \<open>ks\<close> (all of them when there are fewer), the train and validation keys together are
  the first \<open>n_train + n_val\<close> keys, and the test keys are all the remaining ones.
\<close>

theorem split_keys_allocation:
  assumes "0 \<le> train a" and "0 \<le> val a"
  shows "let ks = shuffled_keys L a lines;
             n_train = \<lfloor>fmul (float_of_int (int (length ks))) (train a)\<rfloor>;
             n_val = \<lfloor>fmul (float_of_int (int (length ks))) (val a)\<rfloor>;
             (train_keys, val_keys, test_keys) = split_keys L a lines
         in 0 \<le> n_train \<and> 0 \<le> n_val
          \<and> train_keys = take (nat n_train) ks
          \<and> length train_keys = min (nat n_train) (length ks)
          \<and> train_keys @ val_keys = take (nat n_train + nat n_val) ks
          \<and> test_keys = drop (nat n_train + nat n_val) ks"
proof -
  define ks where "ks = shuffled_keys L a lines"
  define nt where "nt = nat (n_of (length ks) (train a))"
  define nv where "nv = nat (n_of (length ks) (val a))"
  have fl: "n_of (length ks) (train a) = \<lfloor>fmul (float_of_int (int (length ks))) (train a)\<rfloor>"
    "n_of (length ks) (val a) = \<lfloor>fmul (float_of_int (int (length ks))) (val a)\<rfloor>"
    using assms by (simp_all add: n_of_floor)
  have nn: "0 \<le> n_of (length ks) (train a)" "0 \<le> n_of (length ks) (val a)"
    using assms by (simp_all add: n_of_nonneg)
  have alloc: "split_keys L a lines = (take nt ks, take nv (drop nt ks), drop (nt + nv) ks)"
    using allocate_nonneg [OF assms, of ks]
    by (simp add: split_keys_def ks_def nt_def nv_def)
  have cat: "take nt ks @ take nv (drop nt ks) = take (nt + nv) ks"
    by (simp add: take_add)
  show ?thesis
    using nn alloc cat
    unfolding Let_def ks_def [symmetric] fl [symmetric] nt_def [symmetric] nv_def [symmetric]
    by (simp add: min.commute)
qed

theorem split_keys_allocation_witness:
  "(0::rat) \<le> 1 / 2 \<and> (0::rat) \<le> 1 / 4
   \<and> shuffled_keys demo_lib ((demo_args (1 / 2) (1 / 4) (1 / 4))\<lparr>seed := 1\<rparr>) demo_lines
       = [''b'', ''c'', ''__MISSING__'', ''a'']
   \<and> \<lfloor>fmul (float_of_int 4) (1 / 2)\<rfloor> = 2 \<and> \<lfloor>fmul (float_of_int 4) (1 / 4)\<rfloor> = 1
   \<and> split_keys demo_lib ((demo_args (1 / 2) (1 / 4) (1 / 4))\<lparr>seed := 1\<rparr>) demo_lines
       = ([''b'', ''c''], [''__MISSING__''], [''a''])"
proof -
  let ?a = "(demo_args (1 / 2) (1 / 4) (1 / 4))\<lparr>seed := 1\<rparr>"
  have h1: "0 \<le> train ?a" and h2: "0 \<le> val ?a"
    by (simp_all add: demo_args_def)
  have ks: "shuffled_keys demo_lib ?a demo_lines = [''b'', ''c'', ''__MISSING__'', ''a'']"
    by code_simp
  have n: "\<lfloor>fmul (float_of_int 4) (1 / 2)\<rfloor> = 2" "\<lfloor>fmul (float_of_int 4) (1 / 4)\<rfloor> = 1"
    by code_simp+
  have tv: "train ?a = 1 / 2" "val ?a = 1 / 4"
    by (simp_all add: demo_args_def)
  obtain tk vk sk where r: "split_keys demo_lib ?a demo_lines = (tk, vk, sk)"
    by (cases "split_keys demo_lib ?a demo_lines") auto
  from split_keys_allocation [OF h1 h2, of demo_lib demo_lines]
  have "tk = [''b'', ''c''] \<and> tk @ vk = [''b'', ''c'', ''__MISSING__''] \<and> sk = [''a'']"
    unfolding Let_def ks r tv by (auto simp: n)
  then obtain t: "tk = [''b'', ''c'']" and v: "tk @ vk = [''b'', ''c'', ''__MISSING__'']"
    and k: "sk = [''a'']"
    by blast
  from v have "vk = [''__MISSING__'']"
    unfolding t by simp
  with t k have "split_keys demo_lib ?a demo_lines = ([''b'', ''c''], [''__MISSING__''], [''a''])"
    using r by simp
  with ks n show ?thesis by simp
qed

text \<open>
  The claim as stated puts the second cut at the floor of the number of groups times the
  sum of the two fractions. The script cuts at the sum of the two floors, which is
  smaller whenever the two fractional parts add up to one or more. Three groups with the
  fractions \<open>1/2\<close>, \<open>1/2\<close>, \<open>0\<close>: the cuts are at 1 and 2, not at 1 and 3, and the third
  group goes to the test partition.
\<close>

theorem split_keys_floor_counterexample:
  "\<not> bad_fractions (1 / 2) (1 / 2) 0
   \<and> shuffled_keys demo_lib (demo_args (1 / 2) (1 / 2) 0) [demo_line ''a'', demo_line ''b'', demo_line ''c'']
       = [''a'', ''b'', ''c'']
   \<and> split_keys demo_lib (demo_args (1 / 2) (1 / 2) 0) [demo_line ''a'', demo_line ''b'', demo_line ''c'']
       = ([''a''], [''b''], [''c''])
   \<and> \<lfloor>(3::rat) * (1 / 2 + 1 / 2)\<rfloor> = 3
   \<and> \<lfloor>fmul (float_of_int 3) (fadd (1 / 2) (1 / 2))\<rfloor> = 3
   \<and> [''a''] @ [''b''] \<noteq> take 3 [''a'', ''b'', ''c'' :: string]"
  by code_simp

section \<open>The test on the fractions\<close>

text \<open>
  Claim C8. When the sum of the three fractions differs from 1 by more than \<^verbatim>\<open>1e-9\<close>
  (\<open>bad_fractions\<close>: the sum, the difference and the comparison as the scripts compute
  them, in float arithmetic), \<open>group_split_main\<close> and \<open>split_main\<close> both end with the
  exception \<^verbatim>\<open>SystemExit("train+val+test must sum to 1.0")\<close> and leave the file system
  as it was: no file is written, and the log of operations gains no entry, so nothing
  was read and no directory was made.
\<close>

theorem bad_fractions_no_io:
  "(bad_fractions (train a) (val a) (test a)
      \<longrightarrow> group_split_main L w a = (Inl (SystemExit ''train+val+test must sum to 1.0''), w))
   \<and> (bad_fractions (train b) (val b) (test b)
      \<longrightarrow> split_main L w b = (Inl (SystemExit ''train+val+test must sum to 1.0''), w))"
  by (simp add: group_split_main_def split_main_def)

theorem bad_fractions_no_io_witness:
  "bad_fractions (1 / 2) (1 / 4) 0
   \<and> group_split_main demo_lib demo_world (demo_args (1 / 2) (1 / 4) 0)
       = (Inl (SystemExit ''train+val+test must sum to 1.0''), demo_world)
   \<and> split_main demo_lib demo_world (demo_args (1 / 2) (1 / 4) 0)
       = (Inl (SystemExit ''train+val+test must sum to 1.0''), demo_world)"
proof -
  have h: "bad_fractions (1 / 2) (1 / 4) 0"
    by code_simp
  have tv: "train (demo_args (1 / 2) (1 / 4) 0) = 1 / 2" "val (demo_args (1 / 2) (1 / 4) 0) = 1 / 4"
    "test (demo_args (1 / 2) (1 / 4) 0) = 0"
    by (simp_all add: demo_args_def)
  from bad_fractions_no_io [of "demo_args (1 / 2) (1 / 4) 0" demo_lib demo_world "demo_args (1 / 2) (1 / 4) 0"]
  show ?thesis
    unfolding tv using h by simp
qed

section \<open>The canonical text and the digest\<close>











section \<open>The deduplicator\<close>













subsection \<open>Reading back the text written\<close>

lemma universal_newlines_id: "CHR 0x0D \<notin> set t \<Longrightarrow> universal_newlines t = t"
  by (induction t rule: universal_newlines.induct) auto

lemma split_lines_line:
  "CHR 0x0A \<notin> set s \<Longrightarrow> split_lines (s @ CHR 0x0A # rest) = (s @ [CHR 0x0A]) # split_lines rest"
  by (induction s) auto

lemma split_lines_concat:
  "\<forall>s \<in> set ss. CHR 0x0A \<notin> set s \<Longrightarrow>
     split_lines (concat (map (\<lambda>s. s @ [CHR 0x0A]) ss)) = map (\<lambda>s. s @ [CHR 0x0A]) ss"
  by (induction ss) (simp_all add: split_lines_line)

lemma file_lines_concat:
  assumes "\<forall>s \<in> set ss. CHR 0x0A \<notin> set s \<and> CHR 0x0D \<notin> set s"
  shows "file_lines (concat (map (\<lambda>s. s @ [CHR 0x0A]) ss)) = map (\<lambda>s. s @ [CHR 0x0A]) ss"
proof -
  have "CHR 0x0D \<notin> set (concat (map (\<lambda>s. s @ [CHR 0x0A]) ss))"
    using assms by auto
  then show ?thesis
    using assms by (simp add: file_lines_def universal_newlines_id split_lines_concat)
qed


lemma space_newline: "py_isspace (CHR 0x0A)" "py_isspace (CHR 0x0D)"
  by (simp_all add: py_isspace_def)

lemma digit_char_mem: "k < 10 \<Longrightarrow> digit_char k \<in> set ''0123456789''"
  unfolding digit_char_def by (intro nth_mem) simp

lemma digits_chars: "digits n \<noteq> [] \<and> set (digits n) \<subseteq> set ''0123456789''"
proof (induction n rule: digits.induct)
  case (1 n)
  show ?case
  proof (cases "n < 10")
    case True
    then have "digits n = [digit_char n]"
      by (simp add: digits.simps)
    with digit_char_mem [OF True] show ?thesis
      by simp
  next
    case False
    then have e: "digits n = digits (n div 10) @ [digit_char (n mod 10)]"
      by (simp add: digits.simps [of n])
    have "n mod 10 < 10" by simp
    from digit_char_mem [OF this] 1 [OF False] show ?thesis
      unfolding e by simp
  qed
qed

lemma digits_nospace: "list_all (\<lambda>c. \<not> py_isspace c) (digits n)"
proof -
  have "\<forall>c \<in> set ''0123456789''. \<not> py_isspace c"
    by (simp add: py_isspace_def)
  moreover have "set (digits n) \<subseteq> set ''0123456789''"
    using digits_chars [of n] by (rule conjunct2)
  ultimately have "\<forall>c \<in> set (digits n). \<not> py_isspace c"
    by (meson subsetD)
  then show ?thesis
    by (simp only: list_all_iff)
qed

lemma show_int_nospace: "show_int i \<noteq> [] \<and> list_all (\<lambda>c. \<not> py_isspace c) (show_int i)"
proof -
  have m: "\<not> py_isspace (CHR ''-'')"
    by (simp add: py_isspace_def)
  show ?thesis
  proof (cases "i < 0")
    case True
    then have "show_int i = CHR ''-'' # digits (nat (- i))"
      by (simp add: show_int_def)
    with m digits_nospace [of "nat (- i)"] show ?thesis
      by simp
  next
    case False
    then have "show_int i = digits (nat i)"
      by (simp add: show_int_def)
    with digits_nospace [of "nat i"] digits_chars [of "nat i"] show ?thesis
      by simp
  qed
qed

lemma hex_char_nospace: "d < 16 \<Longrightarrow> \<not> py_isspace (hex_char d)"
proof -
  assume "d < 16"
  then have "hex_char d \<in> set ''0123456789abcdef''"
    unfolding hex_char_def by (intro nth_mem) simp
  moreover have "\<forall>c \<in> set ''0123456789abcdef''. \<not> py_isspace c"
    by (simp add: py_isspace_def)
  ultimately show ?thesis by blast
qed

lemma no_nl_simps:
  "no_nl []" "no_nl (c # s) \<longleftrightarrow> c \<noteq> CHR 0x0A \<and> c \<noteq> CHR 0x0D \<and> no_nl s"
  "no_nl (s @ t) \<longleftrightarrow> no_nl s \<and> no_nl t"
  by (auto simp: no_nl_def)

lemma nospace_no_nl: "list_all (\<lambda>c. \<not> py_isspace c) s \<Longrightarrow> no_nl s"
  using space_newline by (auto simp: no_nl_def list_all_iff)

lemma hex_char_no_nl: "d < 16 \<Longrightarrow> hex_char d \<noteq> CHR 0x0A \<and> hex_char d \<noteq> CHR 0x0D"
  using hex_char_nospace [of d] space_newline by metis

lemma escape_char_no_nl: "no_nl (escape_char c)"
proof -
  define n where "n = (of_char c :: nat)"
  have h1: "n < 32 \<Longrightarrow> hex_char (n div 16) \<noteq> CHR 0x0A \<and> hex_char (n div 16) \<noteq> CHR 0x0D"
    by (intro hex_char_no_nl) simp
  have h2: "hex_char (n mod 16) \<noteq> CHR 0x0A \<and> hex_char (n mod 16) \<noteq> CHR 0x0D"
    by (intro hex_char_no_nl) simp
  have c10: "c = CHR 0x0A \<Longrightarrow> n = 10" and c13: "c = CHR 0x0D \<Longrightarrow> n = 13"
    by (simp_all add: n_def)
  show ?thesis
    unfolding escape_char_def n_def [symmetric] Let_def
    using h1 h2 c10 c13 by (auto simp: no_nl_simps)
qed

lemma concat_no_nl: "(\<And>x. x \<in> set xs \<Longrightarrow> no_nl (f x)) \<Longrightarrow> no_nl (concat (map f xs))"
  by (induction xs) (simp_all add: no_nl_simps)

lemma encode_basestring_no_nl: "no_nl (encode_basestring s)"
  by (simp add: encode_basestring_def no_nl_simps concat_no_nl escape_char_no_nl)

lemma join_no_nl: "no_nl sep \<Longrightarrow> (\<And>x. x \<in> set xs \<Longrightarrow> no_nl x) \<Longrightarrow> no_nl (join sep xs)"
  by (induction sep xs rule: join.induct) (simp_all add: no_nl_simps)

lemma show_int_no_nl: "no_nl (show_int i)"
  using show_int_nospace [of i] by (simp add: nospace_no_nl)

lemma dumps_no_nl:
  assumes fl: "\<And>x. repr_ok (float_repr L x)"
  shows "no_nl (dumps L sk v)"
proof (induction v)
  case (JFloat x)
  show ?case using fl [of x] by (cases x) (simp_all add: repr_ok_def nospace_no_nl no_nl_simps)
next
  case (JArray xs)
  have "no_nl (join '', '' (map (dumps L sk) xs))"
    using JArray by (intro join_no_nl) (auto simp: no_nl_simps)
  then show ?case by (simp add: no_nl_simps)
next
  case (JObject kvs)
  let ?items = "(if sk then sort_key fst else id) (map (\<lambda>(k, v). (k, dumps L sk v)) kvs)"
  have set_items: "set ?items = set (map (\<lambda>(k, v). (k, dumps L sk v)) kvs)"
    by simp
  have "no_nl (encode_basestring k @ '': '' @ s)" if "(k, s) \<in> set ?items" for k s
  proof -
    from that obtain v where "(k, v) \<in> set kvs" and s: "s = dumps L sk v"
      unfolding set_items by auto
    then have "no_nl s"
      using JObject [of "(k, v)" v] by simp
    then show ?thesis
      by (simp add: no_nl_simps encode_basestring_no_nl)
  qed
  then have "no_nl (join '', '' (map (\<lambda>(k, s). encode_basestring k @ '': '' @ s) ?items))"
    by (intro join_no_nl) (auto simp: no_nl_simps)
  then show ?case by (simp add: no_nl_simps)
qed (simp_all add: no_nl_simps show_int_no_nl encode_basestring_no_nl)







lemma readback_lines:
  assumes fl: "\<And>x. repr_ok (float_repr L x)"
  shows "file_lines (jsonl_text L rs) = map (\<lambda>obj. dumps L False obj @ [CHR 0x0A]) rs"
proof -
  have "\<forall>s \<in> set (map (dumps L False) rs). CHR 0x0A \<notin> set s \<and> CHR 0x0D \<notin> set s"
    using dumps_no_nl [OF fl] by (simp add: no_nl_def)
  from file_lines_concat [OF this] show ?thesis
    by (simp add: jsonl_text_def comp_def)
qed







section \<open>The statistics engine\<close>

lemma stats_loop_nothing_kept:
  "kept_lines L lines = [] \<Longrightarrow> stats_loop L m lp st lines = Inr st"
proof (induction lines)
  case Nil
  then show ?case by simp
next
  case (Cons raw lines)
  from Cons.prems have skip: "strip raw = [] \<or> json_loads L (strip raw) = None"
    and rest: "kept_lines L lines = []"
    by (auto simp: kept_lines_Cons split: if_splits)
  from skip have "stats_step L m lp st raw = Inr st"
    by (auto simp: stats_step_def Let_def)
  with Cons.IH [OF rest] show ?case by simp
qed

lemma report_of_initial:
  "report_of lp \<lparr>lengths = [], label_counts = [], s_n = 0, n_missing_label = 0\<rparr> = empty_report lp"
  by (simp add: report_of_def length_chars_def labels_report_def empty_report_def)

text \<open>
  Claim C9. On input lines none of which is kept (each is blank or does not parse) the
  statistics engine ends without an exception, and its report has \<^verbatim>\<open>count\<close> 0 and
  \<^verbatim>\<open>min\<close>, \<^verbatim>\<open>p50\<close>, \<^verbatim>\<open>p90\<close>, \<^verbatim>\<open>max\<close> and \<^verbatim>\<open>mean\<close> all 0 (\<open>empty_report\<close>); \<open>stats_main\<close>
  on such an input file returns that report and writes it to the output file.
\<close>

theorem stats_no_records:
  "(kept_lines L lines = [] \<longrightarrow> stats L m lp lines = Inr (empty_report lp))
   \<and> (files w (s_inp a) = Some text \<and> kept_lines L (file_lines text) = []
       \<longrightarrow> fst (stats_main L w a) = Inr (empty_report (s_label_path a))
         \<and> files (snd (stats_main L w a)) (s_out a)
             = Some (dumps_indent L (empty_report (s_label_path a))))"
proof (intro conjI impI)
  assume "kept_lines L lines = []"
  then show "stats L m lp lines = Inr (empty_report lp)"
    by (simp add: stats_def stats_loop_nothing_kept report_of_initial)
next
  assume a: "files w (s_inp a) = Some text \<and> kept_lines L (file_lines text) = []"
  then have s: "stats L (s_mode a) (s_label_path a) (file_lines text) = Inr (empty_report (s_label_path a))"
    by (simp add: stats_def stats_loop_nothing_kept report_of_initial)
  from a s show "fst (stats_main L w a) = Inr (empty_report (s_label_path a))"
    by (simp add: stats_main_def read_text_def)
  from a s show "files (snd (stats_main L w a)) (s_out a)
      = Some (dumps_indent L (empty_report (s_label_path a)))"
    by (simp add: stats_main_def read_text_def write_text_def)
qed

theorem stats_no_records_witness:
  "kept_lines demo_lib [''junk'', ''   '', [CHR 0x0A]] = []
   \<and> stats demo_lib Chat None [''junk'', ''   '', [CHR 0x0A]]
       = Inr (JObject
           [(''count'', JInt 0),
            (''length_chars'',
               JObject [(''min'', JInt 0), (''p50'', JInt 0), (''p90'', JInt 0), (''max'', JInt 0),
                        (''mean'', JInt 0)]),
            (''labels'', JNull)])"
proof -
  have k: "kept_lines demo_lib [''junk'', ''   '', [CHR 0x0A]] = []"
    by code_simp
  from stats_no_records [of demo_lib "[''junk'', ''   '', [CHR 0x0A]]" Chat None] k
  have "stats demo_lib Chat None [''junk'', ''   '', [CHR 0x0A]] = Inr (empty_report None)"
    by blast
  with k show ?thesis
    by (simp add: empty_report_def given_def)
qed

section \<open>The retrain policy\<close>

lemma float_of_int_0: "float_of_int 0 = 0"
  by (simp add: float_of_int_def rnd_def)

lemma py_float_rate:
  "is_number (dict_get_default r k (JInt 0)) \<Longrightarrow>
     py_float L (dict_get_default r k (JInt 0)) = Inr (rate r k)"
  by (cases "map_of r k"; cases "the (map_of r k)")
     (simp_all add: dict_get_default_def rate_def float_of_int_0 int_fits_def)

lemma py_int_count:
  "is_int (dict_get_default t k (JInt 0)) \<Longrightarrow>
     py_int L (dict_get_default t k (JInt 0)) = Inr (case map_of t k of Some (JInt i) \<Rightarrow> i | _ \<Rightarrow> 0)"
  by (cases "map_of t k"; cases "the (map_of t k)")
     (simp_all add: dict_get_default_def)

lemma decide_typed:
  assumes "typed_summary r"
  shows "decide L (JObject r) mp mr =
     Inr ((if float_less (rate r ''passRate'') mp then [''passRate<'' @ py_str L (JFloat mp)] else [])
        @ (if float_less mr (rate r ''repairedRate'') then [''repairedRate>'' @ py_str L (JFloat mr)] else [])
        @ (if tax_count r ''SCHEMA'' > 0 then [''SCHEMA>0''] else [])
        @ (if tax_count r ''JSON_PARSE'' > 0 then [''JSON_PARSE>0''] else []))"
proof -
  have p: "py_float L (dict_get_default r ''passRate'' (JInt 0)) = Inr (rate r ''passRate'')"
    and q: "py_float L (dict_get_default r ''repairedRate'' (JInt 0)) = Inr (rate r ''repairedRate'')"
    using assms by (simp_all add: typed_summary_def py_float_rate)
  show ?thesis
  proof (cases "dict_get r ''taxonomy''")
    case JNull
    then have t: "tax_count r k = 0" for k
      by (auto simp: tax_count_def dict_get_def split: option.splits)
    have e: "dict_get_default [] k (JInt 0) = JInt 0" for k
      by (simp add: dict_get_default_def)
    from JNull show ?thesis
      by (simp add: p q t e py_or_def del: py_str.simps)
  next
    case (JObject t)
    then have m: "map_of r ''taxonomy'' = Some (JObject t)"
      by (auto simp: dict_get_def split: option.splits)
    from assms JObject have
      s: "py_int L (dict_get_default t ''SCHEMA'' (JInt 0)) = Inr (tax_count r ''SCHEMA'')"
      and j: "py_int L (dict_get_default t ''JSON_PARSE'' (JInt 0)) = Inr (tax_count r ''JSON_PARSE'')"
      by (simp_all add: typed_summary_def py_int_count tax_count_def m)
    show ?thesis
    proof (cases "t = []")
      case True
      with JObject s j show ?thesis
        by (simp add: p q py_or_def del: py_str.simps)
    next
      case False
      with JObject s j show ?thesis
        by (simp add: p q py_or_def del: py_str.simps)
    qed
  qed (use assms in \<open>simp_all add: typed_summary_def\<close>)
qed

text \<open>
  Claim C6. For every summary typed as the data model types it (\<open>typed_summary\<close>: the two
  rates are numbers or absent, the taxonomy is absent or maps \<^verbatim>\<open>SCHEMA\<close> and
  \<^verbatim>\<open>JSON_PARSE\<close> to ints or to nothing), and all thresholds, the policy ends without an
  exception, and the list of violated thresholds is not empty if and only if
  \<^verbatim>\<open>passRate < minPass\<close>, or \<^verbatim>\<open>repairedRate > maxRepair\<close>, or the taxonomy count of
  \<^verbatim>\<open>SCHEMA\<close> is positive, or that of \<^verbatim>\<open>JSON_PARSE\<close> is, where a missing rate or count
  is 0 (\<open>rate\<close>, \<open>tax_count\<close>) and the comparisons are those of the floats. In particular
  a summary without \<^verbatim>\<open>passRate\<close> triggers whenever \<^verbatim>\<open>minPass\<close> is positive. Without a
  harvest destination \<open>retrain_main\<close> exits with code 1 when the list is not empty and
  with code 0 when it is, and changes no file.
\<close>

theorem retrain_trigger_iff:
  assumes "typed_summary r"
  shows "\<exists>nd. decide L (JObject r) mp mr = Inr nd
           \<and> (nd \<noteq> [] \<longleftrightarrow>
                float_less (rate r ''passRate'') mp \<or> float_less mr (rate r ''repairedRate'')
                \<or> tax_count r ''SCHEMA'' > 0 \<or> tax_count r ''JSON_PARSE'' > 0)
           \<and> (map_of r ''passRate'' = None \<and> float_less (Fin 0) mp \<longrightarrow> nd \<noteq> [])
           \<and> (\<forall>w a body. files w (results a) = Some body \<and> json_loads L body = Some (JObject r)
                  \<and> min_pass a = mp \<and> max_repair a = mr \<and> out a = None
                \<longrightarrow> fst (retrain_main L w a)
                      = Inr \<lparr>exit_code = (if nd = [] then 0 else 1), need = nd,
                             harvested_failures = None\<rparr>
                  \<and> files (snd (retrain_main L w a)) = files w)"
proof -
  let ?nd = "(if float_less (rate r ''passRate'') mp then [''passRate<'' @ py_str L (JFloat mp)] else [])
        @ (if float_less mr (rate r ''repairedRate'') then [''repairedRate>'' @ py_str L (JFloat mr)] else [])
        @ (if tax_count r ''SCHEMA'' > 0 then [''SCHEMA>0''] else [])
        @ (if tax_count r ''JSON_PARSE'' > 0 then [''JSON_PARSE>0''] else [])"
  have d: "decide L (JObject r) mp mr = Inr ?nd"
    using assms by (rule decide_typed)
  have iff: "?nd \<noteq> [] \<longleftrightarrow>
      float_less (rate r ''passRate'') mp \<or> float_less mr (rate r ''repairedRate'')
      \<or> tax_count r ''SCHEMA'' > 0 \<or> tax_count r ''JSON_PARSE'' > 0"
    by simp
  have miss: "?nd \<noteq> []" if "map_of r ''passRate'' = None \<and> float_less (Fin 0) mp"
    using that by (simp add: rate_def)
  have main: "fst (retrain_main L w a)
        = Inr \<lparr>exit_code = (if ?nd = [] then 0 else 1), need = ?nd, harvested_failures = None\<rparr>
      \<and> files (snd (retrain_main L w a)) = files w"
    if "files w (results a) = Some body \<and> json_loads L body = Some (JObject r)
        \<and> min_pass a = mp \<and> max_repair a = mr \<and> out a = None" for w a body
  proof -
    from that have "decide L (JObject r) (min_pass a) (max_repair a) = Inr ?nd"
      using d by simp
    with that show ?thesis
      by (simp add: retrain_main_def read_text_def given_def del: append_is_Nil_conv py_str.simps)
  qed
  from d iff miss main show ?thesis
    by blast
qed

theorem retrain_trigger_iff_witness:
  "typed_summary demo_summary
   \<and> map_of demo_summary ''passRate'' = None \<and> float_less (Fin 0) (Fin (1 / 2))
   \<and> rate demo_summary ''passRate'' = Fin 0 \<and> tax_count demo_summary ''SCHEMA'' = 2
   \<and> decide demo_lib (JObject demo_summary) (Fin (1 / 2)) (Fin (1 / 2))
       = Inr [''passRate<0.5'', ''SCHEMA>0'']
   \<and> typed_summary demo_ok_summary
   \<and> decide demo_lib (JObject demo_ok_summary) (Fin (1 / 2)) (Fin (1 / 2)) = Inr []"
proof -
  have t: "typed_summary demo_summary" "typed_summary demo_ok_summary"
    by (simp_all add: typed_summary_def demo_summary_def demo_ok_summary_def dict_get_def
        dict_get_default_def int_fits_def)
  have m: "map_of demo_summary ''passRate'' = None" "float_less (Fin 0) (Fin (1 / 2))"
    by (simp_all add: demo_summary_def)
  have v: "rate demo_summary ''passRate'' = Fin 0" "tax_count demo_summary ''SCHEMA'' = 2"
    by (simp_all add: rate_def tax_count_def demo_summary_def)
  have d1: "decide demo_lib (JObject demo_summary) (Fin (1 / 2)) (Fin (1 / 2))
      = Inr [''passRate<0.5'', ''SCHEMA>0'']"
    by code_simp
  have d2: "decide demo_lib (JObject demo_ok_summary) (Fin (1 / 2)) (Fin (1 / 2)) = Inr []"
    by code_simp
  from retrain_trigger_iff [OF t(1), of demo_lib "Fin (1 / 2)" "Fin (1 / 2)"] m
  have "decide demo_lib (JObject demo_summary) (Fin (1 / 2)) (Fin (1 / 2)) \<noteq> Inr []"
    by auto
  with t m v d1 d2 show ?thesis
    by simp
qed

section \<open>The harvested records\<close>

lemma content_ok_first: "\<not> py_isspace c \<Longrightarrow> content_ok (JString (c # s))"
  by (simp add: strip_nonspace_ne)

lemma content_ok_dumps_object: "content_ok (JString (dumps L sk (JObject kvs)))"
proof -
  have "\<not> py_isspace (CHR ''{'')"
    by (simp add: py_isspace_def)
  then show ?thesis
    by (simp add: strip_nonspace_ne)
qed

lemma content_ok_fallback: "content_ok (JString (dumps L False fallback_report))"
  unfolding fallback_report_def by (rule content_ok_dumps_object)

lemma letters_nospace: "\<not> py_isspace (CHR ''Y'')" "\<not> py_isspace (CHR ''P'')" "\<not> py_isspace (CHR ''F'')"
  by (simp_all add: py_isspace_def)

lemma validate_harvest_row:
  "validate_chat (harvest_row L n d) =
     (if strip (py_str L (py_or (dict_get d ''error'') (JString []))) \<noteq> []
      then Inr (True, None)
      else Inr (False, Some ''message[2] missing content''))"
proof -
  let ?e = "py_str L (py_or (dict_get d ''error'') (JString []))"
  have roles: "in_roles (JString ''system'') = Inr True" "in_roles (JString ''user'') = Inr True"
    "in_roles (JString ''assistant'') = Inr True"
    by simp_all
  have c1: "content_ok (JString ''You MUST output valid JSON matching the report schema and nothing else.'')"
    by (rule content_ok_first) (rule letters_nospace)
  have c2: "content_ok (JString (''Produce a schema-valid report for test: '' @ py_str L (dict_get d ''name'')))"
    using content_ok_first [OF letters_nospace(2)] by simp
  have c4: "content_ok (JString ''Fix it. Return JSON only. Include all required keys, even if citations is empty.'')"
    by (rule content_ok_first) (rule letters_nospace)
  note c5 = content_ok_fallback [of L]
  have g: "\<And>r c k. dict_get [(''role'', JString r), (''content'', JString c)] ''role'' = JString r"
    "\<And>r c k. dict_get [(''role'', JString r), (''content'', JString c)] ''content'' = JString c"
    by (simp_all add: dict_get_def)
  have idx: "show_int 2 = ''2''"
    by (simp add: show_int_def digits.simps digit_char_def)
  show ?thesis
  proof (cases "strip ?e \<noteq> []")
    case True
    then have c3: "content_ok (JString ?e)" by simp
    have "check_msgs 0
        [message ''system'' ''You MUST output valid JSON matching the report schema and nothing else.'',
         message ''user'' (''Produce a schema-valid report for test: '' @ py_str L (dict_get d ''name'')),
         message ''assistant'' ?e,
         message ''user'' ''Fix it. Return JSON only. Include all required keys, even if citations is empty.'',
         message ''assistant'' (dumps L False fallback_report)] = Inr None"
      unfolding message_def check_msgs.simps json.case g roles sum.case bool.case
      using c1 c2 c3 c4 c5 by (simp only: if_False not_True_eq_False simp_thms check_msgs.simps)
    with True show ?thesis
      by (simp add: harvest_row_def dict_get_def message_def del: check_msgs.simps)
  next
    case False
    then have c3: "\<not> content_ok (JString ?e)" by simp
    have "check_msgs 0
        [message ''system'' ''You MUST output valid JSON matching the report schema and nothing else.'',
         message ''user'' (''Produce a schema-valid report for test: '' @ py_str L (dict_get d ''name'')),
         message ''assistant'' ?e,
         message ''user'' ''Fix it. Return JSON only. Include all required keys, even if citations is empty.'',
         message ''assistant'' (dumps L False fallback_report)]
        = Inr (Some ''message[2] missing content'')"
      unfolding message_def check_msgs.simps json.case g roles sum.case bool.case
      using c1 c2 c3 idx by (simp only: if_False if_True simp_thms) simp
    with False show ?thesis
      by (simp add: harvest_row_def dict_get_def message_def del: check_msgs.simps)
  qed
qed

text \<open>
  Claim C10, as amended. The record harvested for a detail entry is accepted by the
  conversational validator if and only if \<^verbatim>\<open>str(error or '')\<close> has a character that
  is not white space: the other four turns of the template always have valid roles and
  content, and the third turn is rejected as \<^verbatim>\<open>message[2] missing content\<close> otherwise.
  For an error that is a string this is: the string has a character that is not white
  space. An entry whose error is missing, \<^verbatim>\<open>null\<close> or empty is rejected.
\<close>

theorem harvested_row_valid_iff:
  "(validate_chat (harvest_row L n d) = Inr (True, None)
      \<longleftrightarrow> strip (py_str L (py_or (dict_get d ''error'') (JString []))) \<noteq> [])
   \<and> (strip (py_str L (py_or (dict_get d ''error'') (JString []))) = []
      \<longrightarrow> validate_chat (harvest_row L n d) = Inr (False, Some ''message[2] missing content''))
   \<and> (\<forall>s. dict_get d ''error'' = JString s
      \<longrightarrow> (validate_chat (harvest_row L n d) = Inr (True, None) \<longleftrightarrow> strip s \<noteq> []))
   \<and> (map_of d ''error'' = None \<or> dict_get d ''error'' = JNull \<or> dict_get d ''error'' = JString []
      \<longrightarrow> validate_chat (harvest_row L n d) = Inr (False, Some ''message[2] missing content''))"
proof -
  let ?e = "py_str L (py_or (dict_get d ''error'') (JString []))"
  note v = validate_harvest_row [of L n d]
  have a: "validate_chat (harvest_row L n d) = Inr (True, None) \<longleftrightarrow> strip ?e \<noteq> []"
    unfolding v by simp
  have b: "strip ?e = [] \<Longrightarrow> validate_chat (harvest_row L n d) = Inr (False, Some ''message[2] missing content'')"
    unfolding v by simp
  have s: "?e = s" if "dict_get d ''error'' = JString s" for s
    using that by (simp add: py_or_def)
  have c: "validate_chat (harvest_row L n d) = Inr (True, None) \<longleftrightarrow> strip s \<noteq> []"
    if "dict_get d ''error'' = JString s" for s
    using a s [OF that] by simp
  have z: "?e = []"
    if "map_of d ''error'' = None \<or> dict_get d ''error'' = JNull \<or> dict_get d ''error'' = JString []"
    using that by (auto simp: py_or_def dict_get_def)
  have e: "validate_chat (harvest_row L n d) = Inr (False, Some ''message[2] missing content'')"
    if "map_of d ''error'' = None \<or> dict_get d ''error'' = JNull \<or> dict_get d ''error'' = JString []"
    using b z [OF that] by (simp add: strip_Nil)
  from a b c e show ?thesis
    by blast
qed

theorem harvested_row_valid_iff_witness:
  "dict_get demo_t1 ''error'' = JString ''boom''
   \<and> strip ''boom'' \<noteq> []
   \<and> validate_chat (harvest_row demo_lib 0 demo_t1) = Inr (True, None)
   \<and> map_of [(''name'', JString ''t3'')] ''error'' = None
   \<and> validate_chat (harvest_row demo_lib 1 [(''name'', JString ''t3'')])
      = Inr (False, Some ''message[2] missing content'')"
proof -
  let ?d3 = "[(''name'', JString ''t3'')]"
  have h1: "dict_get demo_t1 ''error'' = JString ''boom''"
    by (simp add: dict_get_def demo_t1_def)
  have h2: "strip ''boom'' \<noteq> []"
    by (simp add: strip_nonspace_ne py_isspace_def)
  have h3: "map_of ?d3 ''error'' = None"
    by simp
  from harvested_row_valid_iff [of demo_lib 0 demo_t1] h1 h2
  have r1: "validate_chat (harvest_row demo_lib 0 demo_t1) = Inr (True, None)"
    by blast
  from harvested_row_valid_iff [of demo_lib 1 ?d3] h3
  have r3: "validate_chat (harvest_row demo_lib 1 ?d3) = Inr (False, Some ''message[2] missing content'')"
    by blast
  from h1 h2 r1 h3 r3 show ?thesis
    by (intro conjI)
qed

text \<open>
  The claim as it was stated, with the error field itself stringified, fails on an error
  that is falsy and not a string: \<^verbatim>\<open>str(0)\<close> is \<^verbatim>\<open>0\<close>, which is not white space, but
  \<^verbatim>\<open>0 or ''\<close> is the empty string, so the third turn is empty and the record is
  rejected.
\<close>

theorem harvested_row_falsy_counterexample:
  "py_str demo_lib (dict_get [(''ok'', JBool False), (''name'', JString ''t1''), (''error'', JInt 0)] ''error'')
     = ''0''
   \<and> strip ''0'' \<noteq> []
   \<and> validate_chat (harvest_row demo_lib 0
        [(''ok'', JBool False), (''name'', JString ''t1''), (''error'', JInt 0)])
      = Inr (False, Some ''message[2] missing content'')"
  by code_simp

section \<open>The harvest file\<close>

lemma failing_entries_Nil: "failing_entries [] = []"
  by (simp add: failing_entries_def List.map_filter_def)

lemma failing_entries_Cons:
  "failing_entries (JObject d # ds) =
     (if dict_get d ''ok'' = JBool True then failing_entries ds else d # failing_entries ds)"
  by (simp add: failing_entries_def List.map_filter_def)

lemma harvest_rows_Nil: "harvest_rows L n [] = []"
  by (simp add: harvest_rows_def)

lemma harvest_rows_Cons: "harvest_rows L n (d # fs) = harvest_row L n d # harvest_rows L (Suc n) fs"
  by (simp add: harvest_rows_def)

lemma length_harvest_rows: "length (harvest_rows L n fs) = length fs"
  by (simp add: harvest_rows_def)

lemma jsonl_text_Cons: "jsonl_text L (r # rs) = dumps L False r @ [CHR 0x0A] @ jsonl_text L rs"
  by (simp add: jsonl_text_def)

lemma harvest_loop_objects:
  "list_all is_object ds \<Longrightarrow>
   list_all (row_encodes L) (harvest_rows L n (failing_entries ds)) \<Longrightarrow>
     harvest_loop L n ds =
       (jsonl_text L (harvest_rows L n (failing_entries ds)), n + length (failing_entries ds), None)"
proof (induction ds arbitrary: n)
  case Nil
  then show ?case by (simp add: failing_entries_Nil harvest_rows_Nil jsonl_text_def)
next
  case (Cons e ds)
  then obtain d where e: "e = JObject d"
    by (cases e) simp_all
  show ?case
  proof (cases "dict_get d ''ok'' = JBool True")
    case True
    with Cons show ?thesis
      by (simp add: e failing_entries_Cons)
  next
    case False
    with Cons.prems have enc: "row_encodes L (harvest_row L n d)"
      and rest: "list_all (row_encodes L) (harvest_rows L (Suc n) (failing_entries ds))"
      and obj: "list_all is_object ds"
      by (simp_all add: e failing_entries_Cons harvest_rows_Cons)
    from enc obtain b where b: "utf8_encode L (dumps L False (harvest_row L n d) @ [CHR 0x0A]) = Some b"
      by (auto simp: row_encodes_def)
    have "harvest_loop L (Suc n) ds =
        (jsonl_text L (harvest_rows L (Suc n) (failing_entries ds)), Suc n + length (failing_entries ds), None)"
      using obj rest by (rule Cons.IH)
    with False b show ?thesis
      by (simp add: e failing_entries_Cons harvest_rows_Cons jsonl_text_Cons)
  qed
qed

lemma dirname_Nil: "dirname [] = []"
  by (simp add: dirname_def)

lemma harvest_lines:
  assumes "\<And>x. repr_ok (float_repr L x)"
  shows "file_lines (jsonl_text L rws) = map (\<lambda>row. dumps L False row @ [CHR 0x0A]) rws"
  using assms by (rule readback_lines)

lemma no_trigger_no_write:
  assumes "files w (results a) = Some body" and "json_loads L body = Some r"
    and "decide L r (min_pass a) (max_repair a) = Inr []"
  shows "fst (retrain_main L w a) = Inr \<lparr>exit_code = 0, need = [], harvested_failures = None\<rparr>
       \<and> files (snd (retrain_main L w a)) = files w"
  using assms by (simp add: retrain_main_def read_text_def)

lemma trigger_appends:
  assumes "files w (results a) = Some body" and "json_loads L body = Some (JObject r)"
    and "decide L (JObject r) (min_pass a) (max_repair a) = Inr nd" and "nd \<noteq> []"
    and "out a = Some p" and "dirname p \<noteq> []" and "files w (dirname p) = None"
    and "dict_get_default r ''details'' (JArray []) = JArray ds" and "list_all is_object ds"
    and "list_all (row_encodes L) (harvest_rows L 0 (failing_entries ds))"
  shows "fst (retrain_main L w a)
           = Inr \<lparr>exit_code = 1, need = nd, harvested_failures = Some (length (failing_entries ds))\<rparr>
       \<and> files (snd (retrain_main L w a)) p
           = Some ((case files w p of None \<Rightarrow> [] | Some old \<Rightarrow> old)
                   @ jsonl_text L (harvest_rows L 0 (failing_entries ds)))
       \<and> (\<forall>q. q \<noteq> p \<longrightarrow> files (snd (retrain_main L w a)) q = files w q)"
proof -
  from assms(6) have "p \<noteq> []"
    using dirname_Nil by auto
  with assms show ?thesis
    by (auto simp: retrain_main_def read_text_def given_def makedirs_def append_text_def
        harvest_loop_objects split: option.splits)
qed

text \<open>
  Claim C7, as amended. Let the summary parse to an object on which the policy ends
  without an exception, with the list \<open>nd\<close> of violated thresholds. When \<open>nd\<close> is empty
  nothing is written. When it is not, a harvest destination \<open>p\<close> with a directory part is
  given, the detail entries are objects and every row to harvest can be encoded (none
  holds a lone surrogate), the run ends with exit code 1 and the harvest file holds what
  it held before followed by the text of the rows, one row for each detail entry whose
  \<^verbatim>\<open>ok\<close> is not \<^verbatim>\<open>true\<close>, in their order; every other file is as it was. That text is
  one line for each row, provided \<^verbatim>\<open>repr\<close> of a float is not empty and has no white
  space. A destination without a directory part is left out of the statement.
\<close>

theorem harvest_appends_rows:
  assumes "files w (results a) = Some body" and "json_loads L body = Some (JObject r)"
    and "decide L (JObject r) (min_pass a) (max_repair a) = Inr nd"
  shows "(nd = [] \<longrightarrow>
            fst (retrain_main L w a) = Inr \<lparr>exit_code = 0, need = [], harvested_failures = None\<rparr>
            \<and> files (snd (retrain_main L w a)) = files w)
       \<and> (\<forall>p ds. nd \<noteq> [] \<and> out a = Some p \<and> dirname p \<noteq> [] \<and> files w (dirname p) = None
              \<and> dict_get_default r ''details'' (JArray []) = JArray ds \<and> list_all is_object ds
              \<and> list_all (row_encodes L) (harvest_rows L 0 (failing_entries ds))
            \<longrightarrow> fst (retrain_main L w a)
                  = Inr \<lparr>exit_code = 1, need = nd,
                         harvested_failures = Some (length (failing_entries ds))\<rparr>
              \<and> files (snd (retrain_main L w a)) p
                  = Some ((case files w p of None \<Rightarrow> [] | Some old \<Rightarrow> old)
                          @ jsonl_text L (harvest_rows L 0 (failing_entries ds)))
              \<and> (\<forall>q. q \<noteq> p \<longrightarrow> files (snd (retrain_main L w a)) q = files w q)
              \<and> length (harvest_rows L 0 (failing_entries ds)) = length (failing_entries ds)
              \<and> ((\<forall>x. repr_ok (float_repr L x))
                   \<longrightarrow> file_lines (jsonl_text L (harvest_rows L 0 (failing_entries ds)))
                       = map (\<lambda>row. dumps L False row @ [CHR 0x0A])
                           (harvest_rows L 0 (failing_entries ds))))"
proof -
  have quiet: "fst (retrain_main L w a) = Inr \<lparr>exit_code = 0, need = [], harvested_failures = None\<rparr>
      \<and> files (snd (retrain_main L w a)) = files w" if "nd = []"
    using assms that no_trigger_no_write [of w a body L "JObject r"] by simp
  have app: "fst (retrain_main L w a)
          = Inr \<lparr>exit_code = 1, need = nd, harvested_failures = Some (length (failing_entries ds))\<rparr>
      \<and> files (snd (retrain_main L w a)) p
          = Some ((case files w p of None \<Rightarrow> [] | Some old \<Rightarrow> old)
                  @ jsonl_text L (harvest_rows L 0 (failing_entries ds)))
      \<and> (\<forall>q. q \<noteq> p \<longrightarrow> files (snd (retrain_main L w a)) q = files w q)"
    if "nd \<noteq> [] \<and> out a = Some p \<and> dirname p \<noteq> [] \<and> files w (dirname p) = None
        \<and> dict_get_default r ''details'' (JArray []) = JArray ds \<and> list_all is_object ds
        \<and> list_all (row_encodes L) (harvest_rows L 0 (failing_entries ds))" for p ds
  proof -
    from that have c: "nd \<noteq> []" "out a = Some p" "dirname p \<noteq> []" "files w (dirname p) = None"
      "dict_get_default r ''details'' (JArray []) = JArray ds" "list_all is_object ds"
      "list_all (row_encodes L) (harvest_rows L 0 (failing_entries ds))"
      by blast+
    show ?thesis
      using assms c by (rule trigger_appends)
  qed
  have len: "length (harvest_rows L 0 fs) = length fs" for fs
    by (rule length_harvest_rows)
  have lines: "file_lines (jsonl_text L rws) = map (\<lambda>row. dumps L False row @ [CHR 0x0A]) rws"
    if "\<forall>x. repr_ok (float_repr L x)" for rws
    using that harvest_lines [of L rws] by simp
  from quiet app len lines show ?thesis
    by blast
qed

theorem harvest_appends_rows_witness:
  "files demo_world ''results.json'' = Some (dumps demo_base False (JObject demo_summary))
   \<and> json_loads demo_eval_lib (dumps demo_base False (JObject demo_summary)) = Some (JObject demo_summary)
   \<and> decide demo_eval_lib (JObject demo_summary) (Fin (1 / 2)) (Fin (1 / 2))
       = Inr [''passRate<0.5'', ''SCHEMA>0'']
   \<and> dirname ''data/failures.jsonl'' = ''data''
   \<and> files demo_world ''data'' = None
   \<and> list_all is_object demo_details
   \<and> length (failing_entries demo_details) = 2
   \<and> list_all (row_encodes demo_eval_lib) (harvest_rows demo_eval_lib 0 (failing_entries demo_details))
   \<and> fst (retrain_main demo_eval_lib demo_world
        (demo_retrain_args ''results.json'' (Some ''data/failures.jsonl'')))
       = Inr \<lparr>exit_code = 1, need = [''passRate<0.5'', ''SCHEMA>0''], harvested_failures = Some 2\<rparr>
   \<and> files (snd (retrain_main demo_eval_lib demo_world
        (demo_retrain_args ''results.json'' (Some ''data/failures.jsonl'')))) ''data/failures.jsonl''
       = Some (''old'' @ [CHR 0x0A]
               @ jsonl_text demo_eval_lib (harvest_rows demo_eval_lib 0 (failing_entries demo_details)))"
proof -
  let ?a = "demo_retrain_args ''results.json'' (Some ''data/failures.jsonl'')"
  have f: "files demo_world ''results.json'' = Some (dumps demo_base False (JObject demo_summary))"
    by (simp add: demo_world_def)
  have l: "json_loads demo_eval_lib (dumps demo_base False (JObject demo_summary)) = Some (JObject demo_summary)"
    by code_simp
  have d: "decide demo_eval_lib (JObject demo_summary) (Fin (1 / 2)) (Fin (1 / 2))
      = Inr [''passRate<0.5'', ''SCHEMA>0'']"
    by code_simp
  have p: "dirname ''data/failures.jsonl'' = ''data''"
    by code_simp
  have q: "files demo_world ''data'' = None" "files demo_world ''data/failures.jsonl'' = Some (''old'' @ [CHR 0x0A])"
    by (simp_all add: demo_world_def)
  have o: "list_all is_object demo_details"
    by (simp add: demo_details_def)
  have n: "length (failing_entries demo_details) = 2"
    by (simp add: demo_details_def failing_entries_def List.map_filter_def dict_get_def)
  have e: "list_all (row_encodes demo_eval_lib) (harvest_rows demo_eval_lib 0 (failing_entries demo_details))"
    by code_simp
  have g: "dict_get_default demo_summary ''details'' (JArray []) = JArray demo_details"
    by (simp add: dict_get_default_def demo_summary_def)
  have s: "results ?a = ''results.json''" "min_pass ?a = Fin (1 / 2)" "max_repair ?a = Fin (1 / 2)"
    "out ?a = Some ''data/failures.jsonl''"
    by (simp_all add: demo_retrain_args_def)
  have "fst (retrain_main demo_eval_lib demo_world ?a)
          = Inr \<lparr>exit_code = 1, need = [''passRate<0.5'', ''SCHEMA>0''],
                 harvested_failures = Some (length (failing_entries demo_details))\<rparr>
      \<and> files (snd (retrain_main demo_eval_lib demo_world ?a)) ''data/failures.jsonl''
          = Some ((case files demo_world ''data/failures.jsonl'' of None \<Rightarrow> [] | Some old \<Rightarrow> old)
                  @ jsonl_text demo_eval_lib (harvest_rows demo_eval_lib 0 (failing_entries demo_details)))"
    using harvest_appends_rows [of demo_world ?a "dumps demo_base False (JObject demo_summary)"
        demo_eval_lib demo_summary "[''passRate<0.5'', ''SCHEMA>0'']"]
      f l d p q(1) o e g s
    by (simp del: dumps.simps)
  with f l d p q o n e show ?thesis
    by simp
qed

text \<open>
  The claim as it was stated fails on a failing detail entry whose error text holds a lone
  surrogate. Of the three failing entries of the summary, the row of the second cannot be
  encoded: writing it raises UnicodeEncodeError, and the harvest file gains the line of
  the first entry only.
\<close>

theorem harvest_surrogate_counterexample:
  "decide demo_eval_lib (JObject demo_sur_summary) (Fin (1 / 2)) (Fin (1 / 2)) = Inr [''passRate<0.5'']
   \<and> length (failing_entries demo_sur_details) = 3
   \<and> fst (retrain_main demo_eval_lib demo_world
        (demo_retrain_args ''results_sur.json'' (Some ''data/failures.jsonl'')))
       = Inl UnicodeEncodeError
   \<and> files (snd (retrain_main demo_eval_lib demo_world
        (demo_retrain_args ''results_sur.json'' (Some ''data/failures.jsonl'')))) ''data/failures.jsonl''
       = Some (''old'' @ [CHR 0x0A] @ dumps demo_eval_lib False (harvest_row demo_eval_lib 0 demo_t1) @ [CHR 0x0A])"
  by code_simp

text \<open>
  A destination without a directory part: \<^verbatim>\<open>os.path.dirname\<close> of \<^verbatim>\<open>failures.jsonl\<close>
  is the empty path, on which \<^verbatim>\<open>os.makedirs\<close> raises FileNotFoundError before the
  harvest file is opened, so nothing is appended, although the policy triggered and two
  detail entries failed.
\<close>

lemma harvest_bare_filename:
  "dirname ''failures.jsonl'' = []
   \<and> fst (retrain_main demo_eval_lib demo_world (demo_retrain_args ''results.json'' (Some ''failures.jsonl'')))
       = Inl FileNotFoundError
   \<and> files (snd (retrain_main demo_eval_lib demo_world
        (demo_retrain_args ''results.json'' (Some ''failures.jsonl'')))) ''failures.jsonl''
       = Some (''old'' @ [CHR 0x0A])"
  by code_simp

end
